theory Spec2Isabelle
  imports Main
begin

section \<open>Byte strings and errors\<close>

text \<open>
  A Go \<^verbatim>\<open>[]byte\<close> (and a Go \<^verbatim>\<open>string\<close>) is a list of 8-bit characters. A nil slice
  and an empty slice are both the empty list: the code under study only ever asks such
  a slice for its length.
\<close>

type_synonym bytes = "char list"

text \<open>
  Every error value the modelled code can return, and the run-time panics it can
  raise. \<open>New\<close> is \<^verbatim>\<open>errors.New\<close>, \<open>Wrap\<close> is \<^verbatim>\<open>errors.Wrap\<close> of a non-nil error,
  \<open>External\<close> is an error produced inside a library that is not part of the repository.
\<close>

datatype error =
    ErrUnsupportedAlgorithm
  | ErrMissingPrivateKey
  | ErrMissingPublicKey
  | ErrInvalidSignature
  | ErrInvalidEcdsaSignatureSize
  | ErrVerification
  | CorruptInputError
  | New string
  | Wrap error string
  | Panic string
  | External string

section \<open>The unpadded URL-safe base64 codec\<close>

text \<open>
  \<^verbatim>\<open>base64.RawURLEncoding\<close> belongs to Go's standard library. It is the alphabet of
  RFC 4648 section 5 without padding, which is what section 4.2 of the specification
  asks for. The decoder is the library's default, non-strict one: it skips CR and LF,
  rejects every other byte outside the alphabet, rejects a final group of one character
  and does not look at the unused low bits of a final group.
\<close>

definition encodeURL :: bytes where
  "encodeURL = ''ABCDEFGHIJKLMNOPQRSTUVWXYZabcdefghijklmnopqrstuvwxyz0123456789-_''"

definition enc6 :: "nat \<Rightarrow> char" where
  "enc6 v = encodeURL ! (v mod 64)"

definition decodeMap :: "char \<Rightarrow> nat option" where
  "decodeMap c = map_of (zip encodeURL [0..<64]) c"

text \<open>
  \<^verbatim>\<open>Encode\<close>: three bytes give four characters; a rest of two bytes gives three
  characters and a rest of one byte gives two.
\<close>

fun Encode :: "bytes \<Rightarrow> bytes" where
  "Encode (a # b # c # rest) =
     (let v = of_char a * 65536 + of_char b * 256 + (of_char c :: nat)
      in enc6 (v div 262144) # enc6 (v div 4096) # enc6 (v div 64) # enc6 v # Encode rest)"
| "Encode [a, b] =
     (let v = of_char a * 65536 + of_char b * 256
      in [enc6 (v div 262144), enc6 (v div 4096), enc6 (v div 64)])"
| "Encode [a] =
     (let v = of_char a * 65536
      in [enc6 (v div 262144), enc6 (v div 4096)])"
| "Encode [] = []"

definition EncodedLen :: "nat \<Rightarrow> nat" where
  "EncodedLen n = (n * 8 + 5) div 6"

definition DecodedLen :: "nat \<Rightarrow> nat" where
  "DecodedLen n = n * 6 div 8"

text \<open>The decoder's quanta, on the 6-bit values of the characters it did not skip.\<close>

fun decode_quanta :: "nat list \<Rightarrow> bytes option" where
  "decode_quanta (a # b # c # d # rest) =
     (let v = a * 262144 + b * 4096 + c * 64 + d
      in case decode_quanta rest of
           None \<Rightarrow> None
         | Some bs \<Rightarrow>
             Some (char_of (v div 65536) # char_of (v div 256) # char_of v # bs))"
| "decode_quanta [a, b, c] =
     (let v = a * 262144 + b * 4096 + c * 64
      in Some [char_of (v div 65536), char_of (v div 256)])"
| "decode_quanta [a, b] =
     (let v = a * 262144 + b * 4096
      in Some [char_of (v div 65536)])"
| "decode_quanta [a] = None"
| "decode_quanta [] = Some []"

fun those_opt :: "'a option list \<Rightarrow> 'a list option" where
  "those_opt [] = Some []"
| "those_opt (None # xs) = None"
| "those_opt (Some x # xs) = (case those_opt xs of None \<Rightarrow> None | Some ys \<Rightarrow> Some (x # ys))"

definition Decode :: "bytes \<Rightarrow> error + bytes" where
  "Decode src =
     (case those_opt (map decodeMap (filter (\<lambda>c. c \<noteq> CHR 0x0A \<and> c \<noteq> CHR 0x0D) src)) of
        None \<Rightarrow> Inl CorruptInputError
      | Some vs \<Rightarrow>
          (case decode_quanta vs of
             None \<Rightarrow> Inl CorruptInputError
           | Some bs \<Rightarrow> Inr bs))"

text \<open>
  The callers all decode the same way: they allocate
  \<^verbatim>\<open>make([]byte, DecodedLen(len(src)))\<close>, let \<^verbatim>\<open>Decode\<close> fill it, drop the count
  of bytes written and go on with the whole buffer. The bytes that \<^verbatim>\<open>Decode\<close> did not
  write stay zero.
\<close>

definition decode_buffer :: "bytes \<Rightarrow> error + bytes" where
  "decode_buffer src =
     (case Decode src of
        Inl e \<Rightarrow> Inl e
      | Inr bs \<Rightarrow> Inr (bs @ replicate (DecodedLen (length src) - length bs) (CHR 0x00)))"

section \<open>Splitting the compact serialization\<close>

text \<open>
  \<^verbatim>\<open>SplitCompact\<close> reads its source through a buffer of 4096 bytes. A reader is modelled
  by the byte strings its successful \<^verbatim>\<open>Read\<close> calls deliver, in order, up to the
  call that returns no byte and an error (which ends the loop).
\<close>

record split_state =
  protected :: bytes
  payload :: bytes
  signature :: bytes
  periods :: nat
  state :: nat

text \<open>\<^verbatim>\<open>bytes.IndexByte\<close>; \<open>None\<close> stands for the result -1.\<close>

definition IndexByte :: "bytes \<Rightarrow> char \<Rightarrow> nat option" where
  "IndexByte s c =
     (if c \<in> set s then Some (length (takeWhile (\<lambda>x. x \<noteq> c) s)) else None)"

text \<open>The \<^verbatim>\<open>switch state\<close> of the inner loop, given the segment \<^verbatim>\<open>sofar[:i]\<close>.\<close>

definition assign_segment :: "split_state \<Rightarrow> bytes \<Rightarrow> split_state" where
  "assign_segment st seg =
     (if state st = 0 then st\<lparr>protected := seg, state := 1\<rparr>
      else if state st = 1 then st\<lparr>payload := seg, state := 2\<rparr>
      else if state st = 2 then st\<lparr>signature := seg\<rparr>
      else st)"

lemma takeWhile_neq_less: "c \<in> set s \<Longrightarrow> length (takeWhile (\<lambda>x. x \<noteq> c) s) < length s"
  by (induction s) auto

lemma IndexByte_less: "IndexByte s c = Some i \<Longrightarrow> i < length s"
  by (auto simp: IndexByte_def takeWhile_neq_less split: if_splits)

text \<open>
  The inner loop \<^verbatim>\<open>for loop := true; loop; { ... }\<close>. It returns the state and what
  is left of \<^verbatim>\<open>sofar\<close>.
\<close>

function scan_segments :: "split_state \<Rightarrow> bytes \<Rightarrow> split_state \<times> bytes" where
  "scan_segments st sofar =
     (case IndexByte sofar (CHR ''.'') of
        None \<Rightarrow>
          (if length sofar \<le> 0 then (st, sofar)
           else scan_segments (assign_segment st (take (length sofar) sofar)) [])
      | Some i \<Rightarrow>
          (let st' = assign_segment (st\<lparr>periods := periods st + 1\<rparr>) (take i sofar)
           in if length sofar \<le> i then scan_segments st' []
              else scan_segments st' (drop (i + 1) sofar)))"
  by pat_completeness auto
termination
  by (relation "measure (\<lambda>(st, sofar). length sofar)") (auto dest: IndexByte_less)

declare scan_segments.simps [simp del]

text \<open>The outer loop, one round for each successful \<^verbatim>\<open>Read\<close>.\<close>

fun read_loop :: "split_state \<Rightarrow> bytes \<Rightarrow> bytes list \<Rightarrow> split_state" where
  "read_loop st sofar [] = st"
| "read_loop st sofar (chunk # rest) =
     (case scan_segments st (sofar @ chunk) of (st', sofar') \<Rightarrow> read_loop st' sofar' rest)"

definition split_init :: split_state where
  "split_init = \<lparr>protected = [], payload = [], signature = [], periods = 0, state = 0\<rparr>"

definition SplitCompact :: "bytes list \<Rightarrow> error + (bytes \<times> bytes \<times> bytes)" where
  "SplitCompact reads =
     (let st = read_loop split_init [] reads
      in if periods st \<noteq> 2 then Inl (New ''invalid number of segments'')
         else Inr (protected st, payload st, signature st))"

text \<open>
  What a \<^verbatim>\<open>bytes.Reader\<close> delivers to a buffer of 4096 bytes: the data in pieces of
  4096 bytes, the last one shorter.
\<close>

function bytes_Reader :: "bytes \<Rightarrow> bytes list" where
  "bytes_Reader data =
     (if data = [] then [] else take 4096 data # bytes_Reader (drop 4096 data))"
  by pat_completeness auto
termination
  by (relation "measure length") auto

declare bytes_Reader.simps [simp del]

section \<open>The one-shot interface: \<^verbatim>\<open>Sign\<close>, \<^verbatim>\<open>SignMulti\<close>, \<^verbatim>\<open>Verify\<close>\<close>

text \<open>
  \<^verbatim>\<open>jwa.SignatureAlgorithm\<close> is a string type; any string converts to it.
\<close>

type_synonym SignatureAlgorithm = string

text \<open>
  The packages \<^verbatim>\<open>jws/sign\<close> and \<^verbatim>\<open>jws/verify\<close>, \<^verbatim>\<open>encoding/json\<close> and the header
  types are not among the repository's files. What the code calls of them is a
  parameter of the model: \<open>sign_New\<close> and \<open>verify_New\<close> are the two factories,
  \<open>marshal_headers hdrs alg\<close> is \<^verbatim>\<open>json.Marshal(hdrs)\<close> after
  \<^verbatim>\<open>hdrs.Set(AlgorithmKey, alg)\<close>, and \<open>json_Unmarshal\<close> is \<^verbatim>\<open>json.Unmarshal\<close> into the
  target struct. A verifier returns \<open>None\<close> for Go's nil error.
\<close>

record 'key sign_Signer =
  sign_Algorithm :: SignatureAlgorithm
  sign_Sign :: "bytes \<Rightarrow> 'key \<Rightarrow> error + bytes"

type_synonym 'key verify_Verifier = "bytes \<Rightarrow> bytes \<Rightarrow> 'key \<Rightarrow> error option"

text \<open>
  \<^verbatim>\<open>Sign\<close>. Writing to a \<^verbatim>\<open>bytes.Buffer\<close> through the base64 encoder cannot fail, so
  those error branches are left out.
\<close>

definition Sign ::
  "(SignatureAlgorithm \<Rightarrow> error + 'key sign_Signer) \<Rightarrow>
   ('h \<Rightarrow> SignatureAlgorithm \<Rightarrow> error + bytes) \<Rightarrow>
   'h \<Rightarrow> bytes \<Rightarrow> SignatureAlgorithm \<Rightarrow> 'key \<Rightarrow> error + bytes" where
  "Sign sign_New marshal_headers hdrs pl alg key =
     (case sign_New alg of
        Inl e \<Rightarrow> Inl (Wrap e ''failed to create signer'')
      | Inr signer \<Rightarrow>
          (case marshal_headers hdrs (sign_Algorithm signer) of
             Inl e \<Rightarrow> Inl (Wrap e ''failed to marshal headers'')
           | Inr hdrbuf \<Rightarrow>
               (let buf = Encode hdrbuf @ ''.'' @ Encode pl
                in case sign_Sign signer buf key of
                     Inl e \<Rightarrow> Inl (Wrap e ''failed to sign payload'')
                   | Inr sg \<Rightarrow> Inr (buf @ ''.'' @ Encode sg))))"

text \<open>\<^verbatim>\<open>SignMulti\<close>, with the signers that the options carry.\<close>

record PayloadSigner =
  PayloadSigner_Algorithm :: SignatureAlgorithm
  PayloadSigner_Sign :: "bytes \<Rightarrow> error + bytes"

record signPayload =
  sp_Protected :: bytes
  sp_Signature :: bytes

record signResult =
  sr_Payload :: bytes
  sr_Signatures :: "signPayload list"

fun SignMulti_loop ::
  "(SignatureAlgorithm \<Rightarrow> error + bytes) \<Rightarrow> bytes \<Rightarrow> PayloadSigner list \<Rightarrow>
   signPayload list \<Rightarrow> error + signPayload list" where
  "SignMulti_loop marshal_alg encodedPayload [] acc = Inr acc"
| "SignMulti_loop marshal_alg encodedPayload (signer # rest) acc =
     (case marshal_alg (PayloadSigner_Algorithm signer) of
        Inl e \<Rightarrow> Inl (Wrap e ''failed to marshal headers'')
      | Inr hdrbuf \<Rightarrow>
          (let encodedHeader = Encode hdrbuf;
               buf = encodedHeader @ ''.'' @ encodedPayload
           in case PayloadSigner_Sign signer buf of
                Inl e \<Rightarrow> Inl (Wrap e ''failed to sign payload'')
              | Inr sg \<Rightarrow>
                  SignMulti_loop marshal_alg encodedPayload rest
                    (acc @ [\<lparr>sp_Protected = encodedHeader, sp_Signature = Encode sg\<rparr>])))"

definition SignMulti ::
  "(SignatureAlgorithm \<Rightarrow> error + bytes) \<Rightarrow> (signResult \<Rightarrow> error + bytes) \<Rightarrow>
   bytes \<Rightarrow> PayloadSigner list \<Rightarrow> error + bytes" where
  "SignMulti marshal_alg json_Marshal pl signers =
     (if length signers = 0 then Inl (New ''no signers provided'')
      else
        (let encodedPayload = Encode pl
         in case SignMulti_loop marshal_alg encodedPayload signers [] of
              Inl e \<Rightarrow> Inl e
            | Inr sigs \<Rightarrow>
                json_Marshal \<lparr>sr_Payload = encodedPayload, sr_Signatures = sigs\<rparr>))"

text \<open>
  The structs \<^verbatim>\<open>Verify\<close> decodes JSON into. An embedded pointer is \<open>None\<close> when the
  decoder found none of its members; an element of \<^verbatim>\<open>[]*EncodedSignature\<close> is \<open>None\<close>
  for a JSON \<^verbatim>\<open>null\<close>.
\<close>

record EncodedSignature =
  es_Protected :: bytes
  es_Headers :: bytes
  es_Signature :: bytes

record EncodedMessage =
  em_Payload :: bytes
  em_Signatures :: "EncodedSignature option list"

record FullEncodedMessage =
  fm_EncodedSignature :: "EncodedSignature option"
  fm_EncodedMessage :: "EncodedMessage option"

text \<open>
  \<^verbatim>\<open>bytes.TrimSpace\<close> removes the white space of Unicode from both ends. The bytes
  are read as UTF-8, one rune at a time, and \<^verbatim>\<open>unicode.IsSpace\<close> holds of the six
  white-space characters of ASCII and of U+0085, U+00A0, U+1680, U+2000 to U+200A,
  U+2028, U+2029, U+202F, U+205F and U+3000. \<open>space_runes\<close> lists their encodings. A
  byte that begins no valid encoding is read as the rune U+FFFD, which is no white
  space, so trimming stops there.
\<close>

definition space_runes :: "bytes list" where
  "space_runes =
     [[CHR 0x09], [CHR 0x0A], [CHR 0x0B], [CHR 0x0C], [CHR 0x0D], [CHR 0x20],
      [CHR 0xC2, CHR 0x85], [CHR 0xC2, CHR 0xA0],
      [CHR 0xE1, CHR 0x9A, CHR 0x80],
      [CHR 0xE2, CHR 0x80, CHR 0x80], [CHR 0xE2, CHR 0x80, CHR 0x81],
      [CHR 0xE2, CHR 0x80, CHR 0x82], [CHR 0xE2, CHR 0x80, CHR 0x83],
      [CHR 0xE2, CHR 0x80, CHR 0x84], [CHR 0xE2, CHR 0x80, CHR 0x85],
      [CHR 0xE2, CHR 0x80, CHR 0x86], [CHR 0xE2, CHR 0x80, CHR 0x87],
      [CHR 0xE2, CHR 0x80, CHR 0x88], [CHR 0xE2, CHR 0x80, CHR 0x89],
      [CHR 0xE2, CHR 0x80, CHR 0x8A],
      [CHR 0xE2, CHR 0x80, CHR 0xA8], [CHR 0xE2, CHR 0x80, CHR 0xA9],
      [CHR 0xE2, CHR 0x80, CHR 0xAF],
      [CHR 0xE2, CHR 0x81, CHR 0x9F],
      [CHR 0xE3, CHR 0x80, CHR 0x80]]"

text \<open>
  The width of the rune of \<open>runes\<close> that \<open>s\<close> begins with, 0 when it begins with
  none, and the loop that removes such runes from the front (\<^verbatim>\<open>TrimLeftFunc\<close>).
  \<^verbatim>\<open>TrimRightFunc\<close> does the same from the end, which is the front of the reversed
  bytes with the runes reversed.
\<close>

definition rune_width :: "bytes list \<Rightarrow> bytes \<Rightarrow> nat" where
  "rune_width runes s =
     (case find (\<lambda>r. take (length r) s = r) runes of None \<Rightarrow> 0 | Some r \<Rightarrow> length r)"

function strip_runes :: "bytes list \<Rightarrow> bytes \<Rightarrow> bytes" where
  "strip_runes runes s =
     (if rune_width runes s = 0 then s
      else strip_runes runes (drop (rune_width runes s) s))"
  by pat_completeness auto
termination
proof (relation "measure (\<lambda>(runes, s). length s)")
  show "wf (measure (\<lambda>(runes, s). length s))" by simp
next
  fix runes :: "bytes list" and s :: bytes
  assume w: "rune_width runes s \<noteq> 0"
  have "rune_width runes [] = 0"
    by (auto simp: rune_width_def split: option.splits dest: find_Some_iff [THEN iffD1])
  with w have "s \<noteq> []" by auto
  with w show "((runes, drop (rune_width runes s) s), (runes, s)) \<in> measure (\<lambda>(runes, s). length s)"
    by simp
qed

declare strip_runes.simps [simp del]

definition TrimSpace :: "bytes \<Rightarrow> bytes" where
  "TrimSpace s = rev (strip_runes (map rev space_runes) (rev (strip_runes space_runes s)))"

text \<open>
  The six white-space bytes of ASCII, and the bytes of ASCII that are none of them: no
  rune of \<open>space_runes\<close> begins or ends with such a byte.
\<close>

definition isSpace :: "char \<Rightarrow> bool" where
  "isSpace c = (c = CHR 0x09 \<or> c = CHR 0x0A \<or> c = CHR 0x0B \<or> c = CHR 0x0C \<or> c = CHR 0x0D \<or> c = CHR 0x20)"

definition plain :: "char \<Rightarrow> bool" where
  "plain c = ((of_char c :: nat) < 128 \<and> \<not> isSpace c)"

text \<open>The loop of \<^verbatim>\<open>Verify\<close> over \<^verbatim>\<open>msg.Signatures\<close>, in JSON mode.\<close>

fun verify_signatures ::
  "'key verify_Verifier \<Rightarrow> 'key \<Rightarrow> bytes \<Rightarrow> EncodedSignature option list \<Rightarrow> error + bytes" where
  "verify_signatures verifier key pl [] =
     Inl (New ''could not verify with any of the signatures'')"
| "verify_signatures verifier key pl (sig # rest) =
     (case sig of
        None \<Rightarrow> Inl (Panic ''invalid memory address or nil pointer dereference'')
      | Some s \<Rightarrow>
          (case decode_buffer (es_Signature s) of
             Inl e \<Rightarrow> verify_signatures verifier key pl rest
           | Inr decodedSignature \<Rightarrow>
               (case verifier (es_Protected s @ ''.'' @ pl) decodedSignature key of
                  Some e \<Rightarrow> verify_signatures verifier key pl rest
                | None \<Rightarrow>
                    (case decode_buffer pl of
                       Inl e \<Rightarrow> Inl (Wrap e ''message verified, failed to decode payload'')
                     | Inr decodedPayload \<Rightarrow> Inr decodedPayload))))"

text \<open>
  The JSON branch of \<^verbatim>\<open>Verify\<close>, from the decoded struct on. When the embedded
  message is nil the code returns \<^verbatim>\<open>errors.Wrap(err, ...)\<close> of an \<^verbatim>\<open>err\<close> that is nil
  there, which is nil: the caller gets no payload and no error. The assignment
  \<^verbatim>\<open>msg.Signatures[0] = v.EncodedSignature\<close> panics when the slice is empty.
\<close>

definition verify_json ::
  "'key verify_Verifier \<Rightarrow> 'key \<Rightarrow> FullEncodedMessage \<Rightarrow> error + bytes" where
  "verify_json verifier key v =
     (case fm_EncodedMessage v of
        None \<Rightarrow> Inr []
      | Some msg \<Rightarrow>
          (case fm_EncodedSignature v of
             None \<Rightarrow> verify_signatures verifier key (em_Payload msg) (em_Signatures msg)
           | Some es \<Rightarrow>
               (if 0 < length (em_Signatures msg)
                then verify_signatures verifier key (em_Payload msg)
                       ((em_Signatures msg)[0 := Some es])
                else Inl (Panic ''index out of range [0] with length 0''))))"

text \<open>The compact branch of \<^verbatim>\<open>Verify\<close>, on the trimmed buffer.\<close>

definition verify_compact :: "'key verify_Verifier \<Rightarrow> 'key \<Rightarrow> bytes \<Rightarrow> error + bytes" where
  "verify_compact verifier key buf =
     (case SplitCompact (bytes_Reader buf) of
        Inl e \<Rightarrow> Inl (Wrap e ''failed extract from compact serialization format'')
      | Inr (prot, pl, sg) \<Rightarrow>
          (case decode_buffer sg of
             Inl e \<Rightarrow> Inl (Wrap e ''failed to decode signature'')
           | Inr decodedSignature \<Rightarrow>
               (case verifier (prot @ ''.'' @ pl) decodedSignature key of
                  Some e \<Rightarrow> Inl (Wrap e ''failed to verify message'')
                | None \<Rightarrow>
                    (case decode_buffer pl of
                       Inl e \<Rightarrow> Inl (Wrap e ''message verified, failed to decode payload'')
                     | Inr decodedPayload \<Rightarrow> Inr decodedPayload))))"

definition Verify ::
  "(SignatureAlgorithm \<Rightarrow> error + 'key verify_Verifier) \<Rightarrow>
   (bytes \<Rightarrow> error + FullEncodedMessage) \<Rightarrow>
   bytes \<Rightarrow> SignatureAlgorithm \<Rightarrow> 'key \<Rightarrow> error + bytes" where
  "Verify verify_New json_Unmarshal buf0 alg key =
     (case verify_New alg of
        Inl e \<Rightarrow> Inl (Wrap e ''failed to create verifier'')
      | Inr verifier \<Rightarrow>
          (let buf = TrimSpace buf0
           in if length buf = 0 then Inl (New ''empty buffer'')
              else if buf ! 0 = CHR ''{'' then
                (case json_Unmarshal buf of
                   Inl e \<Rightarrow> Inl (Wrap e ''failed to unmarshal JWS message'')
                 | Inr v \<Rightarrow> verify_json verifier key v)
              else verify_compact verifier key buf))"

text \<open>
  \<^verbatim>\<open>VerifyWithJWK\<close>. Of the \<^verbatim>\<open>jwk.Key\<close> it is given, the code calls \<^verbatim>\<open>Materialize()\<close>
  and \<^verbatim>\<open>Alg()\<close>; the record holds what the two calls return (\<^verbatim>\<open>Alg()\<close> of a key
  without the attribute is the empty string).
\<close>

record 'key jwk_Key =
  Materialize :: "error + 'key"
  Alg :: string

definition VerifyWithJWK ::
  "(SignatureAlgorithm \<Rightarrow> error + 'key verify_Verifier) \<Rightarrow>
   (bytes \<Rightarrow> error + FullEncodedMessage) \<Rightarrow>
   bytes \<Rightarrow> 'key jwk_Key \<Rightarrow> error + bytes" where
  "VerifyWithJWK verify_New json_Unmarshal buf key =
     (case Materialize key of
        Inl e \<Rightarrow> Inl (Wrap e ''failed to materialize jwk.Key'')
      | Inr keyval \<Rightarrow>
          (case Verify verify_New json_Unmarshal buf (Alg key) keyval of
             Inl e \<Rightarrow> Inl (Wrap e ''failed to verify message'')
           | Inr pl \<Rightarrow> Inr pl))"

section \<open>Parsing\<close>

text \<open>
  Modelled from the spec: the message in memory, whose struct declarations and
  constructors (\<^verbatim>\<open>Message\<close>, \<^verbatim>\<open>Signature\<close>, \<^verbatim>\<open>EncodedHeader\<close>, \<^verbatim>\<open>Header\<close>,
  \<^verbatim>\<open>NewHeader\<close>, \<^verbatim>\<open>NewSignature\<close>) are not among the repository's files. Section 3 of
  the specification has a payload and a sequence of signature entries, each with a
  protected header, a public header and the signature bytes, and headers with the
  members \<^verbatim>\<open>alg\<close>, \<^verbatim>\<open>kid\<close> and \<^verbatim>\<open>jwk\<close>. The records hold the fields that the code
  under study reads and writes. \<^verbatim>\<open>ProtectedHeader\<close> is assigned a pointer in
  \<^verbatim>\<open>parseCompact\<close>, hence an option here; \<^verbatim>\<open>Source\<close> keeps the encoded header as it
  was read. \<open>NewHeader\<close> and \<open>NewSignature\<close> are the empty values.
\<close>

record JSONWebKey =
  Kid :: string

record Header =
  Algorithm :: SignatureAlgorithm
  KeyID :: string
  Jwk :: "JSONWebKey option"

record EncodedHeader =
  Header :: Header
  Source :: bytes

record Signature =
  PublicHeader :: Header
  ProtectedHeader :: "EncodedHeader option"
  Signature :: bytes

record Message =
  Payload :: bytes
  Signatures :: "Signature list"

definition NoSignature :: SignatureAlgorithm where
  "NoSignature = ''none''"

definition NewHeader :: Header where
  "NewHeader = \<lparr>Algorithm = [], KeyID = [], Jwk = None\<rparr>"

definition NewSignature :: Signature where
  "NewSignature = \<lparr>PublicHeader = NewHeader, ProtectedHeader = None, Signature = []\<rparr>"

text \<open>
  \<^verbatim>\<open>parseCompact\<close>, on the reads of its source. \<open>json_Unmarshal_Header\<close> is
  \<^verbatim>\<open>json.Unmarshal\<close> of the decoded header into a new header.
\<close>

definition parseCompact ::
  "(bytes \<Rightarrow> error + Header) \<Rightarrow> bytes list \<Rightarrow> error + Message" where
  "parseCompact json_Unmarshal_Header reads =
     (case SplitCompact reads of
        Inl e \<Rightarrow> Inl (Wrap e ''invalid compact serialization format'')
      | Inr (prot, pl, sg) \<Rightarrow>
          (case decode_buffer prot of
             Inl e \<Rightarrow> Inl (Wrap e ''failed to decode headers'')
           | Inr decodedHeader \<Rightarrow>
               (case json_Unmarshal_Header decodedHeader of
                  Inl e \<Rightarrow> Inl (Wrap e ''failed to parse JOSE headers'')
                | Inr hdr \<Rightarrow>
                    (case decode_buffer pl of
                       Inl e \<Rightarrow> Inl (Wrap e ''failed to decode payload'')
                     | Inr decodedPayload \<Rightarrow>
                         (case decode_buffer sg of
                            Inl e \<Rightarrow> Inl (Wrap e ''failed to decode signature'')
                          | Inr decodedSignature \<Rightarrow>
                              Inr \<lparr>Payload = decodedPayload,
                                   Signatures =
                                     [NewSignature\<lparr>Signature := decodedSignature,
                                        ProtectedHeader := Some \<lparr>Header = hdr, Source = prot\<rparr>\<rparr>]\<rparr>)))))"

text \<open>
  \<^verbatim>\<open>parseJSON\<close>. The decoder fills a struct that embeds a \<^verbatim>\<open>*Message\<close> and a
  \<^verbatim>\<open>*Signature\<close>; each is nil (\<open>None\<close>) when the JSON object has none of its members.
  Reading \<^verbatim>\<open>m.Message.Signatures\<close> through a nil \<^verbatim>\<open>Message\<close> panics. The last loop gives
  a protected header without algorithm the algorithm \<^verbatim>\<open>none\<close>, as section 4.6.3 of the
  specification says; it reaches the header through the pointer \<^verbatim>\<open>ProtectedHeader\<close>,
  which panics when that is nil.
\<close>

record parsed_json =
  pj_Message :: "Message option"
  pj_Signature :: "Signature option"

fun default_algorithm :: "Signature list \<Rightarrow> error + Signature list" where
  "default_algorithm [] = Inr []"
| "default_algorithm (sig # rest) =
     (case ProtectedHeader sig of
        None \<Rightarrow> Inl (Panic ''invalid memory address or nil pointer dereference'')
      | Some ph \<Rightarrow>
          (let sig' =
                 (if Algorithm (Header ph) = []
                  then sig\<lparr>ProtectedHeader := Some (ph\<lparr>Header := (Header ph)\<lparr>Algorithm := NoSignature\<rparr>\<rparr>)\<rparr>
                  else sig)
           in case default_algorithm rest of
                Inl e \<Rightarrow> Inl e
              | Inr rest' \<Rightarrow> Inr (sig' # rest')))"

definition parseJSON :: "(bytes \<Rightarrow> error + parsed_json) \<Rightarrow> bytes \<Rightarrow> error + Message" where
  "parseJSON json_Decode src =
     (case json_Decode src of
        Inl e \<Rightarrow> Inl (Wrap e ''failed to parse jws message'')
      | Inr m \<Rightarrow>
          (case pj_Message m of
             None \<Rightarrow> Inl (Panic ''invalid memory address or nil pointer dereference'')
           | Some msg \<Rightarrow>
               (case (case pj_Signature m of
                        None \<Rightarrow> Inr msg
                      | Some sig \<Rightarrow>
                          (if length (Signatures msg) \<noteq> 0
                           then Inl (New ''invalid message: mixed flattened/full json serialization'')
                           else Inr (msg\<lparr>Signatures := [sig]\<rparr>))) of
                  Inl e \<Rightarrow> Inl e
                | Inr msg' \<Rightarrow>
                    (case default_algorithm (Signatures msg') of
                       Inl e \<Rightarrow> Inl e
                     | Inr sigs \<Rightarrow> Inr (msg'\<lparr>Signatures := sigs\<rparr>)))))"

section \<open>The signers of \<^verbatim>\<open>signer.go\<close>\<close>

text \<open>
  Modelled from the spec: the algorithm constants of package \<^verbatim>\<open>jwa\<close>, which is not
  among the repository's files. Section 3 of the specification lists the algorithms by
  the names of RFC 7518; each constant is its name.
\<close>

definition RS256 :: SignatureAlgorithm where "RS256 = ''RS256''"
definition RS384 :: SignatureAlgorithm where "RS384 = ''RS384''"
definition RS512 :: SignatureAlgorithm where "RS512 = ''RS512''"
definition PS256 :: SignatureAlgorithm where "PS256 = ''PS256''"
definition PS384 :: SignatureAlgorithm where "PS384 = ''PS384''"
definition PS512 :: SignatureAlgorithm where "PS512 = ''PS512''"
definition ES256 :: SignatureAlgorithm where "ES256 = ''ES256''"
definition ES384 :: SignatureAlgorithm where "ES384 = ''ES384''"
definition ES512 :: SignatureAlgorithm where "ES512 = ''ES512''"
definition HS256 :: SignatureAlgorithm where "HS256 = ''HS256''"
definition HS384 :: SignatureAlgorithm where "HS384 = ''HS384''"
definition HS512 :: SignatureAlgorithm where "HS512 = ''HS512''"

text \<open>\<^verbatim>\<open>crypto.Hash\<close>, for the three digests the signers use, and \<^verbatim>\<open>Hash.Size()\<close>.\<close>

datatype crypto_Hash = SHA256 | SHA384 | SHA512

fun Hash_Size :: "crypto_Hash \<Rightarrow> int" where
  "Hash_Size SHA256 = 32"
| "Hash_Size SHA384 = 48"
| "Hash_Size SHA512 = 64"

text \<open>
  Keys, as the standard library declares them, with the fields the signers read.
  \<open>BitSize\<close> is \<^verbatim>\<open>Curve.Params().BitSize\<close>.
\<close>

record rsa_PublicKey =
  rsa_N :: nat
  rsa_E :: nat

record rsa_PrivateKey =
  rsa_Public :: rsa_PublicKey
  rsa_D :: nat

record elliptic_Curve =
  BitSize :: int
  Name :: string

record ecdsa_PublicKey =
  Curve :: elliptic_Curve
  ec_X :: nat
  ec_Y :: nat

record ecdsa_PrivateKey =
  ec_Public :: ecdsa_PublicKey
  ec_D :: nat

text \<open>
  The primitives of the standard library, as parameters. \<open>hash_Sum h m\<close> is the digest of
  \<open>m\<close>; \<open>hmac_Sum h k m\<close> is the MAC of \<open>m\<close> under \<open>k\<close>. The randomness that the signing
  primitives draw is part of the parameter. A verification primitive of \<^verbatim>\<open>crypto/rsa\<close>
  returns the library's own error, here \<open>Some msg\<close>, or nil, here \<open>None\<close>.
\<close>

record crypto =
  hash_Sum :: "crypto_Hash \<Rightarrow> bytes \<Rightarrow> bytes"
  hmac_Sum :: "crypto_Hash \<Rightarrow> bytes \<Rightarrow> bytes \<Rightarrow> bytes"
  rsa_SignPKCS1v15 :: "rsa_PrivateKey \<Rightarrow> crypto_Hash \<Rightarrow> bytes \<Rightarrow> string + bytes"
  rsa_SignPSS :: "rsa_PrivateKey \<Rightarrow> crypto_Hash \<Rightarrow> bytes \<Rightarrow> string + bytes"
  rsa_VerifyPKCS1v15 :: "rsa_PublicKey \<Rightarrow> crypto_Hash \<Rightarrow> bytes \<Rightarrow> bytes \<Rightarrow> string option"
  rsa_VerifyPSS :: "rsa_PublicKey \<Rightarrow> crypto_Hash \<Rightarrow> bytes \<Rightarrow> bytes \<Rightarrow> string option"
  ecdsa_Sign :: "ecdsa_PrivateKey \<Rightarrow> bytes \<Rightarrow> string + (nat \<times> nat)"
  ecdsa_Verify :: "ecdsa_PublicKey \<Rightarrow> bytes \<Rightarrow> nat \<Rightarrow> nat \<Rightarrow> bool"

subsection \<open>RSA\<close>

record RsaSign =
  rs_Algorithm :: SignatureAlgorithm
  rs_PrivateKey :: "rsa_PrivateKey option"
  rs_PublicKey :: "rsa_PublicKey option"
  rs_KeyID :: string
  rs_JSONWebKey :: "JSONWebKey option"

definition NewRsaSign :: "SignatureAlgorithm \<Rightarrow> rsa_PrivateKey option \<Rightarrow> error + RsaSign" where
  "NewRsaSign alg key =
     (if alg = RS256 \<or> alg = RS384 \<or> alg = RS512 \<or> alg = PS256 \<or> alg = PS384 \<or> alg = PS512
      then Inr \<lparr>rs_Algorithm = alg, rs_PrivateKey = key, rs_PublicKey = None,
                rs_KeyID = [], rs_JSONWebKey = None\<rparr>
      else Inl ErrUnsupportedAlgorithm)"

definition RsaSign_hash :: "RsaSign \<Rightarrow> error + crypto_Hash" where
  "RsaSign_hash s =
     (if rs_Algorithm s = RS256 \<or> rs_Algorithm s = PS256 then Inr SHA256
      else if rs_Algorithm s = RS384 \<or> rs_Algorithm s = PS384 then Inr SHA384
      else if rs_Algorithm s = RS512 \<or> rs_Algorithm s = PS512 then Inr SHA512
      else Inl ErrUnsupportedAlgorithm)"

definition RsaSign_Sign :: "crypto \<Rightarrow> RsaSign \<Rightarrow> bytes \<Rightarrow> error + bytes" where
  "RsaSign_Sign c s pl =
     (case RsaSign_hash s of
        Inl e \<Rightarrow> Inl ErrUnsupportedAlgorithm
      | Inr hash \<Rightarrow>
          (case rs_PrivateKey s of
             None \<Rightarrow> Inl ErrMissingPrivateKey
           | Some privkey \<Rightarrow>
               (if rs_Algorithm s = RS256 \<or> rs_Algorithm s = RS384 \<or> rs_Algorithm s = RS512
                then (case rsa_SignPKCS1v15 c privkey hash (hash_Sum c hash pl) of
                        Inl m \<Rightarrow> Inl (External m) | Inr sg \<Rightarrow> Inr sg)
                else if rs_Algorithm s = PS256 \<or> rs_Algorithm s = PS384 \<or> rs_Algorithm s = PS512
                then (case rsa_SignPSS c privkey hash (hash_Sum c hash pl) of
                        Inl m \<Rightarrow> Inl (External m) | Inr sg \<Rightarrow> Inr sg)
                else Inl ErrUnsupportedAlgorithm)))"

definition RsaSign_Verify :: "crypto \<Rightarrow> RsaSign \<Rightarrow> bytes \<Rightarrow> bytes \<Rightarrow> error option" where
  "RsaSign_Verify c s pl sg =
     (case RsaSign_hash s of
        Inl e \<Rightarrow> Some ErrUnsupportedAlgorithm
      | Inr hash \<Rightarrow>
          (case (case rs_PublicKey s of
                   Some k \<Rightarrow> Inr k
                 | None \<Rightarrow>
                     (case rs_PrivateKey s of
                        None \<Rightarrow> Inl ErrMissingPublicKey
                      | Some priv \<Rightarrow> Inr (rsa_Public priv))) of
             Inl e \<Rightarrow> Some e
           | Inr pubkey \<Rightarrow>
               (if rs_Algorithm s = RS256 \<or> rs_Algorithm s = RS384 \<or> rs_Algorithm s = RS512
                then map_option External (rsa_VerifyPKCS1v15 c pubkey hash (hash_Sum c hash pl) sg)
                else if rs_Algorithm s = PS256 \<or> rs_Algorithm s = PS384 \<or> rs_Algorithm s = PS512
                then map_option External (rsa_VerifyPSS c pubkey hash (hash_Sum c hash pl) sg)
                else Some ErrUnsupportedAlgorithm)))"

subsection \<open>ECDSA\<close>

text \<open>
  \<^verbatim>\<open>big.Int\<close>: \<open>Bytes\<close> is the big-endian representation without leading zero bytes
  (empty for 0), \<open>SetBytes\<close> reads a big-endian byte string.
\<close>

function Bytes :: "nat \<Rightarrow> bytes" where
  "Bytes n = (if n = 0 then [] else Bytes (n div 256) @ [char_of (n mod 256)])"
  by pat_completeness auto
termination
  by (relation "measure id") auto

declare Bytes.simps [simp del]

definition SetBytes :: "bytes \<Rightarrow> nat" where
  "SetBytes bs = foldl (\<lambda>acc b. acc * 256 + of_char b) 0 bs"

text \<open>
  The fixed-width form of a number: its bytes, with zero bytes in front up to the width.
\<close>

definition left_pad :: "nat \<Rightarrow> bytes \<Rightarrow> bytes" where
  "left_pad n bs = replicate (n - length bs) (CHR 0x00) @ bs"

text \<open>
  \<^verbatim>\<open>copy(out[lo:], data)\<close>: slicing panics when \<open>lo\<close> is negative or beyond the length;
  \<^verbatim>\<open>copy\<close> writes as many bytes as fit.
\<close>

definition copy_at :: "bytes \<Rightarrow> int \<Rightarrow> bytes \<Rightarrow> error + bytes" where
  "copy_at out lo data =
     (if lo < 0 \<or> int (length out) < lo then Inl (Panic ''slice bounds out of range'')
      else Inr (take (nat lo) out @ take (length out - nat lo) data
                @ drop (nat lo + length data) out))"

record EcdsaSign =
  ecs_Algorithm :: SignatureAlgorithm
  ecs_PrivateKey :: "ecdsa_PrivateKey option"
  ecs_PublicKey :: "ecdsa_PublicKey option"
  ecs_KeyID :: string
  ecs_JSONWebKey :: "JSONWebKey option"

text \<open>
  \<^verbatim>\<open>NewEcdsaSign\<close>. Taking \<^verbatim>\<open>&key.PublicKey\<close> of a nil key panics; the algorithm is
  looked at first.
\<close>

definition NewEcdsaSign ::
  "SignatureAlgorithm \<Rightarrow> ecdsa_PrivateKey option \<Rightarrow> error + EcdsaSign" where
  "NewEcdsaSign alg key =
     (if alg = ES256 \<or> alg = ES384 \<or> alg = ES512
      then (case key of
              None \<Rightarrow> Inl (Panic ''invalid memory address or nil pointer dereference'')
            | Some k \<Rightarrow>
                Inr \<lparr>ecs_Algorithm = alg, ecs_PrivateKey = Some k,
                     ecs_PublicKey = Some (ec_Public k), ecs_KeyID = [], ecs_JSONWebKey = None\<rparr>)
      else Inl ErrUnsupportedAlgorithm)"

definition EcdsaSign_hash :: "EcdsaSign \<Rightarrow> error + crypto_Hash" where
  "EcdsaSign_hash sign =
     (if ecs_Algorithm sign = ES256 then Inr SHA256
      else if ecs_Algorithm sign = ES384 then Inr SHA384
      else if ecs_Algorithm sign = ES512 then Inr SHA512
      else Inl ErrUnsupportedAlgorithm)"

definition EcdsaSign_Sign :: "crypto \<Rightarrow> EcdsaSign \<Rightarrow> bytes \<Rightarrow> error + bytes" where
  "EcdsaSign_Sign c sign pl =
     (case EcdsaSign_hash sign of
        Inl e \<Rightarrow> Inl e
      | Inr hash \<Rightarrow>
          (case ecs_PrivateKey sign of
             None \<Rightarrow> Inl (New ''cannot proceed with Sign(): no private key available'')
           | Some privkey \<Rightarrow>
               (let keysiz = Hash_Size hash;
                    curveBits = BitSize (Curve (ec_Public privkey))
                in if curveBits \<noteq> keysiz * 8
                   then Inl (New ''key size does not match curve bit size'')
                   else
                     (case ecdsa_Sign c privkey (hash_Sum c hash pl) of
                        Inl m \<Rightarrow> Inl (External m)
                      | Inr (r, s) \<Rightarrow>
                          (let out = replicate (nat (keysiz * 2)) (CHR 0x00)
                           in case copy_at out (0 * keysiz + (keysiz - int (length (Bytes r)))) (Bytes r) of
                                Inl e \<Rightarrow> Inl e
                              | Inr out' \<Rightarrow>
                                  copy_at out' (1 * keysiz + (keysiz - int (length (Bytes s)))) (Bytes s))))))"

definition EcdsaSign_Verify :: "crypto \<Rightarrow> EcdsaSign \<Rightarrow> bytes \<Rightarrow> bytes \<Rightarrow> error option" where
  "EcdsaSign_Verify c s pl sg =
     (case (case ecs_PublicKey s of
              Some k \<Rightarrow> Inr k
            | None \<Rightarrow>
                (case ecs_PrivateKey s of
                   None \<Rightarrow> Inl (New ''cannot proceed with Verify(): no private/public key available'')
                 | Some priv \<Rightarrow> Inr (ec_Public priv))) of
        Inl e \<Rightarrow> Some e
      | Inr pubkey \<Rightarrow>
          (case EcdsaSign_hash s of
             Inl e \<Rightarrow> Some ErrUnsupportedAlgorithm
           | Inr hash \<Rightarrow>
               (let keysiz = Hash_Size hash
                in if int (length sg) \<noteq> 2 * keysiz then Some ErrInvalidEcdsaSignatureSize
                   else
                     (let rv = SetBytes (take (nat keysiz) sg);
                          sv = SetBytes (drop (nat keysiz) sg)
                      in if \<not> ecdsa_Verify c pubkey (hash_Sum c hash pl) rv sv
                         then Some ErrInvalidSignature
                         else None))))"

subsection \<open>HMAC\<close>

record HmacSign =
  hm_Algorithm :: SignatureAlgorithm
  hm_Key :: bytes
  hm_KeyID :: string
  hm_JSONWebKey :: "JSONWebKey option"

definition NewHmacSign :: "SignatureAlgorithm \<Rightarrow> bytes \<Rightarrow> error + HmacSign" where
  "NewHmacSign alg key =
     Inr \<lparr>hm_Algorithm = alg, hm_Key = key, hm_KeyID = [], hm_JSONWebKey = None\<rparr>"

text \<open>\<^verbatim>\<open>hmac()\<close> chooses the digest that \<^verbatim>\<open>hmac.New\<close> is keyed with.\<close>

definition HmacSign_hmac :: "HmacSign \<Rightarrow> error + crypto_Hash" where
  "HmacSign_hmac s =
     (if hm_Algorithm s = HS256 then Inr SHA256
      else if hm_Algorithm s = HS384 then Inr SHA384
      else if hm_Algorithm s = HS512 then Inr SHA512
      else Inl ErrUnsupportedAlgorithm)"

definition HmacSign_Sign :: "crypto \<Rightarrow> HmacSign \<Rightarrow> bytes \<Rightarrow> error + bytes" where
  "HmacSign_Sign c s pl =
     (case HmacSign_hmac s of
        Inl e \<Rightarrow> Inl e
      | Inr h \<Rightarrow> Inr (hmac_Sum c h (hm_Key s) pl))"

definition HmacSign_Verify :: "crypto \<Rightarrow> HmacSign \<Rightarrow> bytes \<Rightarrow> bytes \<Rightarrow> error option" where
  "HmacSign_Verify c s pl mac =
     (case HmacSign_Sign c s pl of
        Inl e \<Rightarrow> Some e
      | Inr expected \<Rightarrow> (if mac \<noteq> expected then Some ErrInvalidSignature else None))"

subsection \<open>The multi-signer\<close>

text \<open>
  The \<^verbatim>\<open>Signer\<close> interface: what \<^verbatim>\<open>Alg()\<close>, \<^verbatim>\<open>Jwk()\<close> and \<^verbatim>\<open>Kid()\<close> return, and
  \<^verbatim>\<open>Sign\<close>.
\<close>

record Signer =
  Signer_Alg :: SignatureAlgorithm
  Signer_Jwk :: "JSONWebKey option"
  Signer_Kid :: string
  Signer_Sign :: "bytes \<Rightarrow> error + bytes"

definition RsaSign_Signer :: "crypto \<Rightarrow> RsaSign \<Rightarrow> Signer" where
  "RsaSign_Signer c s =
     \<lparr>Signer_Alg = rs_Algorithm s, Signer_Jwk = rs_JSONWebKey s, Signer_Kid = rs_KeyID s,
      Signer_Sign = RsaSign_Sign c s\<rparr>"

definition EcdsaSign_Signer :: "crypto \<Rightarrow> EcdsaSign \<Rightarrow> Signer" where
  "EcdsaSign_Signer c s =
     \<lparr>Signer_Alg = ecs_Algorithm s, Signer_Jwk = ecs_JSONWebKey s, Signer_Kid = ecs_KeyID s,
      Signer_Sign = EcdsaSign_Sign c s\<rparr>"

definition HmacSign_Signer :: "crypto \<Rightarrow> HmacSign \<Rightarrow> Signer" where
  "HmacSign_Signer c s =
     \<lparr>Signer_Alg = hm_Algorithm s, Signer_Jwk = hm_JSONWebKey s, Signer_Kid = hm_KeyID s,
      Signer_Sign = HmacSign_Sign c s\<rparr>"

record MultiSign =
  Signers :: "Signer list"

text \<open>
  Modelled from the spec: \<^verbatim>\<open>buffer.Buffer.Base64Encode\<close> of package \<^verbatim>\<open>buffer\<close>, which
  is not among the repository's files. Section 4.2 of the specification has one codec
  for every transition, the unpadded URL-safe base64; encoding does not fail.
\<close>

definition Base64Encode :: "bytes \<Rightarrow> error + bytes" where
  "Base64Encode b = Inr (Encode b)"

text \<open>
  The loop of \<^verbatim>\<open>MultiSign\<close> over the signers; \<open>json_Marshal\<close> is \<^verbatim>\<open>json.Marshal\<close>
  of a header.
\<close>

fun MultiSign_loop ::
  "(Header \<Rightarrow> error + bytes) \<Rightarrow> bytes \<Rightarrow> Signer list \<Rightarrow> Message \<Rightarrow> error + Message" where
  "MultiSign_loop json_Marshal encoded [] msg = Inr msg"
| "MultiSign_loop json_Marshal encoded (signer # rest) msg =
     (let protected0 = NewHeader\<lparr>Algorithm := Signer_Alg signer\<rparr>;
          prot = (case Signer_Jwk signer of
                    None \<Rightarrow> protected0
                  | Some k \<Rightarrow> protected0\<lparr>Jwk := Some k, KeyID := Kid k\<rparr>)
      in case json_Marshal prot of
           Inl e \<Rightarrow> Inl e
         | Inr protbuf \<Rightarrow>
             (let ss = (protbuf @ ''.'') @ encoded
              in case Signer_Sign signer ss of
                   Inl e \<Rightarrow> Inl e
                 | Inr sigbuf \<Rightarrow>
                     (let hdr0 = NewHeader;
                          hdr = (if KeyID hdr0 = []
                                 then (if KeyID prot \<noteq> [] then hdr0\<lparr>KeyID := KeyID prot\<rparr>
                                       else if Signer_Kid signer \<noteq> []
                                       then hdr0\<lparr>KeyID := Signer_Kid signer\<rparr>
                                       else hdr0)
                                 else hdr0);
                          sig = \<lparr>PublicHeader = hdr,
                                 ProtectedHeader = Some \<lparr>Header = prot, Source = []\<rparr>,
                                 Signature = sigbuf\<rparr>
                      in MultiSign_loop json_Marshal encoded rest
                           (msg\<lparr>Signatures := Signatures msg @ [sig]\<rparr>))))"

definition MultiSign_MultiSign ::
  "(Header \<Rightarrow> error + bytes) \<Rightarrow> MultiSign \<Rightarrow> bytes \<Rightarrow> error + Message" where
  "MultiSign_MultiSign json_Marshal m pl =
     (case Base64Encode pl of
        Inl e \<Rightarrow> Inl e
      | Inr encoded \<Rightarrow>
          MultiSign_loop json_Marshal encoded (Signers m) \<lparr>Payload = pl, Signatures = []\<rparr>)"

section \<open>The key generator of the command line\<close>


definition elliptic_P256 :: elliptic_Curve where
  "elliptic_P256 = \<lparr>BitSize = 256, Name = ''P-256''\<rparr>"

definition elliptic_P384 :: elliptic_Curve where
  "elliptic_P384 = \<lparr>BitSize = 384, Name = ''P-384''\<rparr>"

definition elliptic_P521 :: elliptic_Curve where
  "elliptic_P521 = \<lparr>BitSize = 521, Name = ''P-521''\<rparr>"








section \<open>Concrete inputs\<close>



definition big_payload :: bytes where
  "big_payload = replicate 4096 (CHR ''x'')"

text \<open>
  Stand-ins for the libraries, to run the signers on concrete inputs. They are no
  cryptography, but each verification depends on the key, the digest and the signature
  it is given. The digest is the message behind the name of the hash. RSA is the
  textbook scheme on the number of the digest: the signature of \<open>m\<close> is
  \<open>m ^ D mod N\<close>, and \<open>s\<close> is accepted when \<open>s ^ E mod N = m\<close>; the PSS variant signs
  \<open>m + 1\<close>. ECDSA is the scheme in the additive group of the integers modulo 11 with
  generator 1, where the public point of the private number \<open>D\<close> is \<open>X = D\<close>, with the
  nonce 3: \<open>r = 3\<close> and \<open>s = (m + r * D) / 3\<close>, and \<open>(r, s)\<close> is accepted when
  \<open>(m + r * X) / s = r\<close>.
\<close>

definition toy_digest :: "crypto_Hash \<Rightarrow> bytes \<Rightarrow> bytes" where
  "toy_digest h m =
     (case h of SHA256 \<Rightarrow> ''sha256:'' | SHA384 \<Rightarrow> ''sha384:'' | SHA512 \<Rightarrow> ''sha512:'') @ m"

definition toy_rsa_sign :: "nat \<Rightarrow> rsa_PrivateKey \<Rightarrow> bytes \<Rightarrow> bytes" where
  "toy_rsa_sign salt k d =
     Bytes ((((SetBytes d + salt) mod rsa_N (rsa_Public k)) ^ rsa_D k) mod rsa_N (rsa_Public k))"

definition toy_rsa_verify :: "nat \<Rightarrow> rsa_PublicKey \<Rightarrow> bytes \<Rightarrow> bytes \<Rightarrow> string option" where
  "toy_rsa_verify salt pub d sg =
     (if (SetBytes sg ^ rsa_E pub) mod rsa_N pub = (SetBytes d + salt) mod rsa_N pub then None
      else Some ''crypto/rsa: verification error'')"

definition toy_ecdsa_sign :: "ecdsa_PrivateKey \<Rightarrow> bytes \<Rightarrow> string + (nat \<times> nat)" where
  "toy_ecdsa_sign k d =
     (let s = (4 * (SetBytes d mod 11 + 3 * ec_D k)) mod 11
      in if s = 0 then Inl ''zero signature'' else Inr (3, s))"

definition toy_ecdsa_verify :: "ecdsa_PublicKey \<Rightarrow> bytes \<Rightarrow> nat \<Rightarrow> nat \<Rightarrow> bool" where
  "toy_ecdsa_verify pub d r s =
     (0 < r \<and> r < 11 \<and> 0 < s \<and> s < 11
      \<and> ((SetBytes d mod 11) * (s ^ 9 mod 11) + r * (s ^ 9 mod 11) * ec_X pub) mod 11 = r)"

definition toy_crypto :: crypto where
  "toy_crypto =
     \<lparr>hash_Sum = toy_digest,
      hmac_Sum = (\<lambda>h k m. toy_digest h (k @ m)),
      rsa_SignPKCS1v15 = (\<lambda>k h d. Inr (toy_rsa_sign 0 k d)),
      rsa_SignPSS = (\<lambda>k h d. Inr (toy_rsa_sign 1 k d)),
      rsa_VerifyPKCS1v15 = (\<lambda>pub h d sg. toy_rsa_verify 0 pub d sg),
      rsa_VerifyPSS = (\<lambda>pub h d sg. toy_rsa_verify 1 pub d sg),
      ecdsa_Sign = toy_ecdsa_sign,
      ecdsa_Verify = toy_ecdsa_verify\<rparr>"

text \<open>
  Two RSA keys (\<open>3 * 7 = 1\<close> modulo \<open>\<phi>(33) = 20\<close>, \<open>5 * 5 = 1\<close> modulo \<open>\<phi>(35) = 24\<close>)
  and, for each curve, two ECDSA keys.
\<close>

definition rsa_key :: rsa_PrivateKey where
  "rsa_key = \<lparr>rsa_Public = \<lparr>rsa_N = 33, rsa_E = 3\<rparr>, rsa_D = 7\<rparr>"

definition rsa_other_key :: rsa_PrivateKey where
  "rsa_other_key = \<lparr>rsa_Public = \<lparr>rsa_N = 35, rsa_E = 5\<rparr>, rsa_D = 5\<rparr>"

definition ec_key :: "elliptic_Curve \<Rightarrow> ecdsa_PrivateKey" where
  "ec_key crv = \<lparr>ec_Public = \<lparr>Curve = crv, ec_X = 1, ec_Y = 1\<rparr>, ec_D = 1\<rparr>"

definition ec_other_key :: "elliptic_Curve \<Rightarrow> ecdsa_PrivateKey" where
  "ec_other_key crv = \<lparr>ec_Public = \<lparr>Curve = crv, ec_X = 2, ec_Y = 1\<rparr>, ec_D = 2\<rparr>"

text \<open>Signers as a caller may build them, field by field or with the constructors.\<close>

definition rsa_signer_private_only :: RsaSign where
  "rsa_signer_private_only =
     \<lparr>rs_Algorithm = RS256, rs_PrivateKey = Some rsa_key, rs_PublicKey = None,
      rs_KeyID = [], rs_JSONWebKey = None\<rparr>"

definition ecdsa_signer_private_only :: EcdsaSign where
  "ecdsa_signer_private_only =
     \<lparr>ecs_Algorithm = ES256, ecs_PrivateKey = Some (ec_key elliptic_P256), ecs_PublicKey = None,
      ecs_KeyID = [], ecs_JSONWebKey = None\<rparr>"

definition rsa_signer_no_key :: RsaSign where
  "rsa_signer_no_key =
     \<lparr>rs_Algorithm = RS256, rs_PrivateKey = None, rs_PublicKey = None,
      rs_KeyID = [], rs_JSONWebKey = None\<rparr>"

definition ecdsa_signer_no_key :: EcdsaSign where
  "ecdsa_signer_no_key =
     \<lparr>ecs_Algorithm = ES256, ecs_PrivateKey = None, ecs_PublicKey = None,
      ecs_KeyID = [], ecs_JSONWebKey = None\<rparr>"

definition rsa_signer_other_key :: RsaSign where
  "rsa_signer_other_key =
     \<lparr>rs_Algorithm = RS256, rs_PrivateKey = Some rsa_other_key, rs_PublicKey = None,
      rs_KeyID = [], rs_JSONWebKey = None\<rparr>"

definition rsa_signer_pss :: RsaSign where
  "rsa_signer_pss =
     \<lparr>rs_Algorithm = PS256, rs_PrivateKey = Some rsa_key, rs_PublicKey = None,
      rs_KeyID = [], rs_JSONWebKey = None\<rparr>"

definition ecdsa_signer_other_key :: EcdsaSign where
  "ecdsa_signer_other_key =
     \<lparr>ecs_Algorithm = ES256, ecs_PrivateKey = Some (ec_other_key elliptic_P256),
      ecs_PublicKey = None, ecs_KeyID = [], ecs_JSONWebKey = None\<rparr>"

text \<open>
  The signer that \<^verbatim>\<open>NewEcdsaSign\<close> makes for ES512 and a key on P-521, the curve of
  ES512.
\<close>

definition ecdsa_signer_p521 :: EcdsaSign where
  "ecdsa_signer_p521 =
     \<lparr>ecs_Algorithm = ES512, ecs_PrivateKey = Some (ec_key elliptic_P521),
      ecs_PublicKey = Some (ec_Public (ec_key elliptic_P521)), ecs_KeyID = [], ecs_JSONWebKey = None\<rparr>"

text \<open>
  Signers that return the bytes they are asked to sign, one for each of the three signer
  interfaces: the signature they produce shows the signing input.
\<close>

definition echo_signer :: Signer where
  "echo_signer =
     \<lparr>Signer_Alg = RS256, Signer_Jwk = None, Signer_Kid = [], Signer_Sign = (\<lambda>ss. Inr ss)\<rparr>"

definition echo_sign_Signer :: "'key sign_Signer" where
  "echo_sign_Signer = \<lparr>sign_Algorithm = ''HS256'', sign_Sign = (\<lambda>buf key. Inr buf)\<rparr>"

definition echo_PayloadSigner :: PayloadSigner where
  "echo_PayloadSigner =
     \<lparr>PayloadSigner_Algorithm = ''HS256'', PayloadSigner_Sign = (\<lambda>buf. Inr buf)\<rparr>"

text \<open>
  A verifier that accepts the signature \<^verbatim>\<open>sig\<close> and no other, and a factory that knows
  the algorithm \<^verbatim>\<open>HS256\<close> only.
\<close>

definition accept_sig :: "bytes verify_Verifier" where
  "accept_sig = (\<lambda>signing_input sg key. if sg = ''sig'' then None else Some ErrInvalidSignature)"

definition toy_verify_New :: "SignatureAlgorithm \<Rightarrow> error + bytes verify_Verifier" where
  "toy_verify_New alg = (if alg = HS256 then Inr accept_sig else Inl ErrUnsupportedAlgorithm)"

text \<open>
  A compact token and two JSON serializations of the payload \<^verbatim>\<open>pay\<close> with the
  protected header \<^verbatim>\<open>{"alg":"HS256"}\<close>, and the structs that \<^verbatim>\<open>json.Unmarshal\<close>
  makes of the JSON texts: one flattened, one with both a top-level signature and a
  \<^verbatim>\<open>signatures\<close> array. The members of the structs are byte slices, which
  \<^verbatim>\<open>encoding/json\<close> reads from (and writes as) padded standard base64: the texts hold
  the base64 of the base64url strings that \<^verbatim>\<open>Verify\<close> works on, as the output of
  \<^verbatim>\<open>SignMulti\<close> does.
\<close>

definition header_HS256 :: bytes where
  \<open>header_HS256 = ''{"alg":"HS256"}''\<close>

definition compact_token :: bytes where
  "compact_token = ''eyJhbGciOiJIUzI1NiJ9.cGF5.c2ln''"

definition flat_signature :: EncodedSignature where
  "flat_signature =
     \<lparr>es_Protected = ''eyJhbGciOiJIUzI1NiJ9'', es_Headers = [], es_Signature = ''c2ln''\<rparr>"

definition other_signature :: EncodedSignature where
  "other_signature =
     \<lparr>es_Protected = ''eyJhbGciOiJIUzI1NiJ9'', es_Headers = [], es_Signature = ''b3RoZXI''\<rparr>"

definition mixed_message :: FullEncodedMessage where
  "mixed_message =
     \<lparr>fm_EncodedSignature = Some flat_signature,
      fm_EncodedMessage = Some \<lparr>em_Payload = ''cGF5'', em_Signatures = [Some other_signature]\<rparr>\<rparr>"

definition flattened_message :: FullEncodedMessage where
  "flattened_message =
     \<lparr>fm_EncodedSignature = Some flat_signature,
      fm_EncodedMessage = Some \<lparr>em_Payload = ''cGF5'', em_Signatures = []\<rparr>\<rparr>"

definition mixed_json :: bytes where
  \<open>mixed_json = ''{"payload":"Y0dGNQ==","signatures":[{"protected":"ZXlKaGJHY2lPaUpJVXpJMU5pSjk=","signature":"YjNSb1pYSQ=="}],"protected":"ZXlKaGJHY2lPaUpJVXpJMU5pSjk=","signature":"YzJsbg=="}''\<close>

definition flattened_json :: bytes where
  \<open>flattened_json = ''{"payload":"Y0dGNQ==","protected":"ZXlKaGJHY2lPaUpJVXpJMU5pSjk=","signature":"YzJsbg=="}''\<close>

definition jwk_without_alg :: "bytes jwk_Key" where
  "jwk_without_alg = \<lparr>Materialize = Inr ''secret'', Alg = []\<rparr>"

section \<open>Properties of the splitter\<close>

lemma periods_assign_segment [simp]: "periods (assign_segment st seg) = periods st"
  by (simp add: assign_segment_def)

lemma IndexByte_None: "IndexByte s c = None \<Longrightarrow> count_list s c = 0"
  by (auto simp: IndexByte_def count_list_0_iff split: if_splits)

lemma count_list_takeWhile_drop:
  "c \<in> set s \<Longrightarrow>
     count_list s c = Suc (count_list (drop (Suc (length (takeWhile (\<lambda>x. x \<noteq> c) s))) s) c)"
  by (induction s) auto

lemma IndexByte_Some: "IndexByte s c = Some i \<Longrightarrow> count_list s c = Suc (count_list (drop (Suc i) s) c)"
  by (auto simp: IndexByte_def count_list_takeWhile_drop split: if_splits)

lemma scan_segments_Nil [simp]: "scan_segments st [] = (st, [])"
  by (simp add: scan_segments.simps [of st "[]"] IndexByte_def)

lemma scan_segments_no_dot:
  "IndexByte sofar (CHR ''.'') = None \<Longrightarrow> sofar \<noteq> [] \<Longrightarrow>
     scan_segments st sofar = (assign_segment st sofar, [])"
  by (simp add: scan_segments.simps [of st sofar])

lemma scan_segments_dot:
  "IndexByte sofar (CHR ''.'') = Some i \<Longrightarrow>
     scan_segments st sofar =
       scan_segments (assign_segment (st\<lparr>periods := periods st + 1\<rparr>) (take i sofar))
         (drop (Suc i) sofar)"
  by (frule IndexByte_less) (simp add: scan_segments.simps [of st sofar])

lemma scan_segments_periods:
  "scan_segments st sofar = (st', sofar') \<Longrightarrow>
     periods st' = periods st + count_list sofar (CHR ''.'') \<and> sofar' = []"
proof (induction "length sofar" arbitrary: st sofar rule: less_induct)
  case less
  show ?case
  proof (cases "IndexByte sofar (CHR ''.'')")
    case None
    show ?thesis
    proof (cases "sofar = []")
      case True
      with less.prems show ?thesis by auto
    next
      case False
      with None less.prems IndexByte_None [OF None] show ?thesis
        by (auto simp: scan_segments_no_dot)
    qed
  next
    case (Some i)
    then have lt: "i < length sofar" by (rule IndexByte_less)
    define st1 where "st1 = assign_segment (st\<lparr>periods := periods st + 1\<rparr>) (take i sofar)"
    from Some less.prems
    have step: "scan_segments st1 (drop (Suc i) sofar) = (st', sofar')"
      by (simp add: scan_segments_dot st1_def)
    from lt have "length (drop (Suc i) sofar) < length sofar" by simp
    from less.hyps [OF this step]
    have "periods st' = periods st1 + count_list (drop (Suc i) sofar) (CHR ''.'') \<and> sofar' = []" .
    with IndexByte_Some [OF Some] show ?thesis by (simp add: st1_def)
  qed
qed


section \<open>Properties of the codec\<close>

lemma length_encodeURL: "length encodeURL = 64" by (simp add: encodeURL_def)

lemma enc6_in: "enc6 v \<in> set encodeURL"
  by (simp add: enc6_def length_encodeURL)

lemma set_Encode: "set (Encode xs) \<subseteq> set encodeURL"
  by (induction xs rule: Encode.induct) (simp_all add: Let_def enc6_in)

lemma EncodedLen_simps: "EncodedLen 0 = 0" "EncodedLen (Suc 0) = 2" "EncodedLen (Suc (Suc 0)) = 3"
  "EncodedLen (Suc (Suc (Suc n))) = EncodedLen n + 4"
  by (simp_all add: EncodedLen_def)

lemma length_Encode: "length (Encode xs) = EncodedLen (length xs)"
  by (induction xs rule: Encode.induct) (simp_all add: Let_def EncodedLen_simps)

lemma dot_not_alphabet: "CHR ''.'' \<notin> set encodeURL"
  by (simp add: encodeURL_def)

lemma brace_not_alphabet: "CHR ''{'' \<notin> set encodeURL"
  by (simp add: encodeURL_def)

lemma space_not_alphabet: "c \<in> set encodeURL \<Longrightarrow> \<not> isSpace c"
  by (auto simp add: encodeURL_def isSpace_def)

lemma length_decode_quanta: "decode_quanta vs = Some bs \<Longrightarrow> length bs = DecodedLen (length vs)"
  by (induction vs arbitrary: bs rule: decode_quanta.induct)
     (auto simp: Let_def DecodedLen_def split: option.splits)

lemma length_those_opt: "those_opt xs = Some ys \<Longrightarrow> length ys = length xs"
  by (induction xs arbitrary: ys rule: those_opt.induct) (auto split: option.splits)

lemma DecodedLen_mono: "m \<le> n \<Longrightarrow> DecodedLen m \<le> DecodedLen n"
  by (simp add: DecodedLen_def div_le_mono)

lemma length_Decode_le: "Decode src = Inr bs \<Longrightarrow> length bs \<le> DecodedLen (length src)"
proof -
  assume a: "Decode src = Inr bs"
  let ?f = "filter (\<lambda>c. c \<noteq> CHR 0x0A \<and> c \<noteq> CHR 0x0D) src"
  from a obtain vs where v: "those_opt (map decodeMap ?f) = Some vs" and d: "decode_quanta vs = Some bs"
    by (auto simp: Decode_def split: option.splits)
  have "length vs = length ?f" using length_those_opt [OF v] by simp
  also have "\<dots> \<le> length src" by simp
  finally have "DecodedLen (length vs) \<le> DecodedLen (length src)" by (rule DecodedLen_mono)
  with length_decode_quanta [OF d] show ?thesis by simp
qed

lemma length_decode_buffer: "decode_buffer src = Inr d \<Longrightarrow> length d = DecodedLen (length src)"
  by (auto simp: decode_buffer_def split: sum.splits dest: length_Decode_le)

section \<open>The splitter across reads\<close>

lemma IndexByte_append_dot:
  "c \<notin> set h \<Longrightarrow> IndexByte (h @ c # r) c = Some (length h)"
proof -
  assume a: "c \<notin> set h"
  then have "takeWhile (\<lambda>x. x \<noteq> c) h = h" by auto
  with a show ?thesis by (simp add: IndexByte_def)
qed

lemma IndexByte_absent: "c \<notin> set s \<Longrightarrow> IndexByte s c = None"
  by (simp add: IndexByte_def)

lemma scan_segments_first_chunk:
  assumes h: "CHR ''.'' \<notin> set h" and p: "CHR ''.'' \<notin> set p" and ne: "p \<noteq> []"
    and st: "state st = 0"
  shows "scan_segments st (h @ CHR ''.'' # p) =
           (st\<lparr>periods := periods st + 1, protected := h, payload := p, state := 2\<rparr>, [])"
proof -
  have "scan_segments st (h @ CHR ''.'' # p) =
          scan_segments (assign_segment (st\<lparr>periods := periods st + 1\<rparr>) h) p"
    using scan_segments_dot [OF IndexByte_append_dot [OF h, of p], of st] by simp
  also have "\<dots> = (assign_segment (assign_segment (st\<lparr>periods := periods st + 1\<rparr>) h) p, [])"
    using scan_segments_no_dot [OF IndexByte_absent [OF p] ne] by simp
  finally show ?thesis using st by (simp add: assign_segment_def)
qed

lemma assign_segment_state2:
  "state st = 2 \<Longrightarrow> state (assign_segment st seg) = 2 \<and>
     payload (assign_segment st seg) = payload st \<and> protected (assign_segment st seg) = protected st"
  by (simp add: assign_segment_def)

lemma scan_segments_state2:
  "scan_segments st sofar = (st', sofar') \<Longrightarrow> state st = 2 \<Longrightarrow>
     state st' = 2 \<and> payload st' = payload st \<and> protected st' = protected st"
proof (induction "length sofar" arbitrary: st sofar rule: less_induct)
  case less
  show ?case
  proof (cases "IndexByte sofar (CHR ''.'')")
    case None
    show ?thesis
    proof (cases "sofar = []")
      case True
      with less.prems show ?thesis by auto
    next
      case False
      with None less.prems show ?thesis
        by (auto simp: scan_segments_no_dot assign_segment_state2)
    qed
  next
    case (Some i)
    then have lt: "i < length sofar" by (rule IndexByte_less)
    define st1 where "st1 = assign_segment (st\<lparr>periods := periods st + 1\<rparr>) (take i sofar)"
    from Some less.prems
    have step: "scan_segments st1 (drop (Suc i) sofar) = (st', sofar')"
      by (simp add: scan_segments_dot st1_def)
    have s1: "state st1 = 2 \<and> payload st1 = payload st \<and> protected st1 = protected st"
      using assign_segment_state2 [of "st\<lparr>periods := periods st + 1\<rparr>" "take i sofar"] less.prems(2)
      by (simp add: st1_def)
    from lt have "length (drop (Suc i) sofar) < length sofar" by simp
    from less.hyps [OF this step] s1 show ?thesis by simp
  qed
qed

lemma read_loop_state2:
  "state st = 2 \<Longrightarrow>
     payload (read_loop st [] reads) = payload st \<and> protected (read_loop st [] reads) = protected st"
proof (induction reads arbitrary: st)
  case Nil
  then show ?case by simp
next
  case (Cons chunk rest)
  obtain st' sofar' where s: "scan_segments st chunk = (st', sofar')"
    by (cases "scan_segments st chunk")
  from scan_segments_periods [OF s] have e: "sofar' = []" by simp
  from scan_segments_state2 [OF s Cons.prems]
  have i: "state st' = 2" "payload st' = payload st" "protected st' = protected st" by simp_all
  show ?case using Cons.IH [OF i(1)] s e i by simp
qed

lemma bytes_Reader_Cons:
  "data \<noteq> [] \<Longrightarrow> bytes_Reader data = take 4096 data # bytes_Reader (drop 4096 data)"
  by (simp add: bytes_Reader.simps [of data])

lemma SplitCompact_cut:
  assumes h: "CHR ''.'' \<notin> set h" and p: "CHR ''.'' \<notin> set p"
    and lh: "length h < 4095" and lp: "4095 - length h < length p"
    and r: "SplitCompact (bytes_Reader (h @ CHR ''.'' # p @ rest)) = Inr (a, b, c)"
  shows "a = h \<and> b = take (4095 - length h) p"
proof -
  define k where "k = 4095 - length h"
  define buf where "buf = h @ CHR ''.'' # p @ rest"
  define st where
    "st = split_init\<lparr>periods := periods split_init + 1, protected := h, payload := take k p, state := 2\<rparr>"
  have t: "take 4096 buf = h @ CHR ''.'' # take k p"
  proof -
    from lh have "4096 - length h = Suc k" by (simp add: k_def)
    then show ?thesis using lp by (simp add: buf_def k_def)
  qed
  have ne: "take k p \<noteq> []" using lh lp by (auto simp: k_def)
  have pk: "CHR ''.'' \<notin> set (take k p)" using p by (auto dest: in_set_takeD)
  have "scan_segments split_init (h @ CHR ''.'' # take k p) = (st, [])"
    unfolding st_def by (rule scan_segments_first_chunk [OF h pk ne]) (simp add: split_init_def)
  then have sc: "scan_segments split_init (take 4096 buf) = (st, [])"
    by (simp only: t)
  have bne: "buf \<noteq> []" by (simp add: buf_def)
  have "read_loop split_init [] (bytes_Reader buf) = read_loop st [] (bytes_Reader (drop 4096 buf))"
    by (simp only: bytes_Reader_Cons [OF bne] read_loop.simps append_Nil sc prod.case)
  moreover have "state st = 2" by (simp add: st_def)
  then have "payload (read_loop st [] (bytes_Reader (drop 4096 buf))) = payload st \<and>
      protected (read_loop st [] (bytes_Reader (drop 4096 buf))) = protected st"
    by (rule read_loop_state2)
  moreover have "payload st = take k p" "protected st = h" by (simp_all add: st_def)
  ultimately show ?thesis using r
    by (auto simp: SplitCompact_def Let_def buf_def [symmetric] k_def [symmetric] split: if_splits)
qed

lemma verify_compact_cut:
  assumes h: "CHR ''.'' \<notin> set h" and p: "CHR ''.'' \<notin> set p"
    and lh: "length h < 4095" and lp: "4095 - length h < length p"
    and r: "verify_compact verifier key (h @ CHR ''.'' # p @ rest) = Inr d"
  shows "length d = DecodedLen (4095 - length h)"
proof -
  from r obtain a b c where s: "SplitCompact (bytes_Reader (h @ CHR ''.'' # p @ rest)) = Inr (a, b, c)"
    and d: "decode_buffer b = Inr d"
    by (auto simp: verify_compact_def split: sum.splits option.splits prod.splits)
  from SplitCompact_cut [OF h p lh lp s] have "b = take (4095 - length h) p" by simp
  with length_decode_buffer [OF d] lp show ?thesis by simp
qed

lemma rune_width_other:
  "(\<And>r. r \<in> set runes \<Longrightarrow> r \<noteq> [] \<and> hd r \<noteq> a) \<Longrightarrow> rune_width runes (a # rest) = 0"
proof -
  assume a: "\<And>r. r \<in> set runes \<Longrightarrow> r \<noteq> [] \<and> hd r \<noteq> a"
  have "find (\<lambda>r. take (length r) (a # rest) = r) runes = None"
  proof (rule ccontr)
    assume "find (\<lambda>r. take (length r) (a # rest) = r) runes \<noteq> None"
    then obtain r where r: "r \<in> set runes" and t: "take (length r) (a # rest) = r"
      by (auto simp: find_None_iff)
    from a [OF r] obtain b bs where c: "r = b # bs" and n: "b \<noteq> a" by (cases r) auto
    from t c have "b = a" by simp
    with n show False by simp
  qed
  then show ?thesis by (simp add: rune_width_def)
qed

lemma plain_no_rune:
  assumes "plain a"
  shows "r \<in> set space_runes \<Longrightarrow> r \<noteq> [] \<and> hd r \<noteq> a"
    and "r \<in> set (map rev space_runes) \<Longrightarrow> r \<noteq> [] \<and> hd r \<noteq> a"
  using assms by (auto simp: space_runes_def plain_def isSpace_def)

lemma strip_runes_plain:
  "plain a \<Longrightarrow> strip_runes space_runes (a # rest) = a # rest"
  "plain a \<Longrightarrow> strip_runes (map rev space_runes) (a # rest) = a # rest"
proof -
  assume p: "plain a"
  have "rune_width space_runes (a # rest) = 0"
    by (rule rune_width_other) (rule plain_no_rune(1) [OF p])
  then show "strip_runes space_runes (a # rest) = a # rest"
    by (simp add: strip_runes.simps [of _ "a # rest"])
next
  assume p: "plain a"
  have "rune_width (map rev space_runes) (a # rest) = 0"
    by (rule rune_width_other) (rule plain_no_rune(2) [OF p])
  then show "strip_runes (map rev space_runes) (a # rest) = a # rest"
    by (simp add: strip_runes.simps [of _ "a # rest"])
qed

lemma TrimSpace_id:
  "xs \<noteq> [] \<Longrightarrow> plain (hd xs) \<Longrightarrow> plain (last xs) \<Longrightarrow> TrimSpace xs = xs"
proof -
  assume ne: "xs \<noteq> []" and h: "plain (hd xs)" and l: "plain (last xs)"
  from ne h have 1: "strip_runes space_runes xs = xs"
    by (cases xs) (simp_all add: strip_runes_plain)
  have 2: "strip_runes (map rev space_runes) (rev xs) = rev xs"
  proof (cases "rev xs")
    case Nil
    with ne show ?thesis by simp
  next
    case (Cons a list)
    from ne have "hd (rev xs) = last xs" by (simp add: hd_rev)
    with Cons l have "plain a" by simp
    then have "strip_runes (map rev space_runes) (a # list) = a # list"
      by (rule strip_runes_plain)
    with Cons show ?thesis by (simp only:)
  qed
  show ?thesis by (simp add: TrimSpace_def 1 2)
qed

lemma Encode_Nil_iff: "Encode xs = [] \<longleftrightarrow> xs = []"
  by (cases xs rule: Encode.cases) (simp_all add: Let_def)

lemma Encode_no_dot: "CHR ''.'' \<notin> set (Encode xs)"
  using set_Encode [of xs] dot_not_alphabet by blast

lemma Encode_not_space: "c \<in> set (Encode xs) \<Longrightarrow> \<not> isSpace c"
  using set_Encode [of xs] space_not_alphabet by blast

lemma plain_alphabet: "c \<in> set encodeURL \<Longrightarrow> plain c"
  by (auto simp add: encodeURL_def plain_def isSpace_def)

lemma Encode_plain: "c \<in> set (Encode xs) \<Longrightarrow> plain c"
  using set_Encode [of xs] plain_alphabet by blast

lemma Verify_token:
  assumes vn: "verify_New alg = Inr verifier" and ne: "hdrbuf \<noteq> []"
  shows "Verify verify_New json_Unmarshal (Encode hdrbuf @ CHR ''.'' # Encode pl @ CHR ''.'' # Encode sg) alg key
         = verify_compact verifier key (Encode hdrbuf @ CHR ''.'' # Encode pl @ CHR ''.'' # Encode sg)"
proof -
  define tok where "tok = Encode hdrbuf @ CHR ''.'' # Encode pl @ CHR ''.'' # Encode sg"
  from ne have hne: "Encode hdrbuf \<noteq> []" by (simp add: Encode_Nil_iff)
  then have hd_tok: "hd tok = hd (Encode hdrbuf)" by (simp add: tok_def)
  have hd_in: "hd (Encode hdrbuf) \<in> set (Encode hdrbuf)" using hne by simp
  have tne: "tok \<noteq> []" by (simp add: tok_def)
  have lt: "last tok = last (CHR ''.'' # Encode sg)" by (simp add: tok_def)
  have l: "plain (last tok)"
  proof (cases "Encode sg = []")
    case True
    with lt show ?thesis by (simp add: plain_def isSpace_def)
  next
    case False
    then have "last (Encode sg) \<in> set (Encode sg)" by simp
    then have "plain (last (Encode sg))" by (rule Encode_plain)
    with lt False show ?thesis by simp
  qed
  have h: "plain (hd tok)" using hd_tok hd_in Encode_plain by simp
  have tr: "TrimSpace tok = tok" by (rule TrimSpace_id [OF tne h l])
  have "tok ! 0 = hd tok" using tne by (simp add: hd_conv_nth)
  then have nb: "tok ! 0 \<noteq> CHR ''{''"
    using hd_tok hd_in set_Encode [of hdrbuf] brace_not_alphabet by auto
  show ?thesis
    unfolding tok_def [symmetric] using vn tr tne nb by (simp add: Verify_def)
qed


section \<open>Decoding what was encoded\<close>

lemma distinct_encodeURL: "distinct encodeURL"
  by (simp add: encodeURL_def)

lemma decodeMap_enc6: "v < 64 \<Longrightarrow> decodeMap (enc6 v) = Some v"
proof -
  assume v: "v < 64"
  have "map_of (zip encodeURL [0..<64]) (encodeURL ! v) = Some ([0..<64] ! v)"
    by (rule map_of_zip_nth) (simp_all add: length_encodeURL distinct_encodeURL v)
  with v show ?thesis by (simp add: decodeMap_def enc6_def)
qed

lemma recompose4:
  fixes v :: nat
  assumes "v < 16777216"
  shows "(v div 262144 mod 64) * 262144 + (v div 4096 mod 64) * 4096 + (v div 64 mod 64) * 64 + v mod 64 = v"
proof -
  have d2: "v div 4096 = v div 64 div 64" by (simp add: div_mult2_eq [symmetric])
  have d3: "v div 262144 = v div 4096 div 64" by (simp add: div_mult2_eq [symmetric])
  have s: "v div 262144 < 64" using assms by simp
  have f1: "v = 64 * (v div 64) + v mod 64" by simp
  have f2: "v div 64 = 64 * (v div 4096) + v div 64 mod 64" unfolding d2 by simp
  have f3: "v div 4096 = 64 * (v div 262144) + v div 4096 mod 64" unfolding d3 by simp
  have f4: "v div 262144 mod 64 = v div 262144" using s by simp
  show ?thesis using f1 f2 f3 f4 by linarith
qed

fun sextets :: "bytes \<Rightarrow> nat list" where
  "sextets (a # b # c # rest) =
     (let v = of_char a * 65536 + of_char b * 256 + (of_char c :: nat)
      in (v div 262144) mod 64 # (v div 4096) mod 64 # (v div 64) mod 64 # v mod 64 # sextets rest)"
| "sextets [a, b] =
     (let v = of_char a * 65536 + of_char b * 256
      in [(v div 262144) mod 64, (v div 4096) mod 64, (v div 64) mod 64])"
| "sextets [a] =
     (let v = of_char a * 65536
      in [(v div 262144) mod 64, (v div 4096) mod 64])"
| "sextets [] = []"

lemma enc6_mod [simp]: "enc6 (v mod 64) = enc6 v"
  by (simp add: enc6_def)

lemma Encode_sextets: "Encode xs = map enc6 (sextets xs)"
  by (induction xs rule: Encode.induct) (simp_all add: Let_def)

lemma sextets_less: "v \<in> set (sextets xs) \<Longrightarrow> v < 64"
  by (induction xs rule: sextets.induct) (auto simp: Let_def)

lemma those_opt_decodeMap:
  "(\<And>v. v \<in> set vs \<Longrightarrow> v < 64) \<Longrightarrow> those_opt (map decodeMap (map enc6 vs)) = Some vs"
  by (induction vs) (simp_all add: decodeMap_enc6)

lemma char_of_high:
  fixes a b c :: nat
  assumes "b < 256" "c < 256"
  shows "(a * 65536 + b * 256 + c) div 65536 = a"
  using assms by simp

lemma char_of_mid:
  fixes a b c :: nat
  assumes "c < 256"
  shows "char_of ((a * 65536 + b * 256 + c) div 256) = (char_of b :: char)"
proof -
  have "(a * 65536 + b * 256 + c) div 256 = a * 256 + b" using assms by simp
  moreover have "char_of (a * 256 + b) = (char_of ((a * 256 + b) mod 256) :: char)"
    by (simp only: char_of_mod_256)
  ultimately show ?thesis by simp
qed

lemma char_of_low:
  fixes a b c :: nat
  shows "char_of (a * 65536 + b * 256 + c) = (char_of c :: char)"
proof -
  have e: "a * 65536 + b * 256 + c = c + 256 * (a * 256 + b)" by simp
  have "char_of (c + 256 * (a * 256 + b)) = (char_of ((c + 256 * (a * 256 + b)) mod 256) :: char)"
    by (simp only: char_of_mod_256)
  also have "(c + 256 * (a * 256 + b)) mod 256 = c mod 256" by (rule mod_mult_self2)
  also have "(char_of (c mod 256) :: char) = char_of c" by (simp only: char_of_mod_256)
  finally show ?thesis by (simp only: e)
qed

lemma quantum3:
  fixes A B C :: char
  defines "v \<equiv> of_char A * 65536 + of_char B * 256 + (of_char C :: nat)"
  defines "w \<equiv> (v div 262144) mod 64 * 262144 + (v div 4096) mod 64 * 4096 + (v div 64) mod 64 * 64 + v mod 64"
  shows "char_of (w div 65536) = A" and "char_of (w div 256) = B" and "char_of w = C"
proof -
  have a: "(of_char A :: nat) < 256" and b: "(of_char B :: nat) < 256" and c: "(of_char C :: nat) < 256"
    by simp_all
  have lt: "v < 16777216" unfolding v_def using a b c by linarith
  have r: "w = v" unfolding w_def by (rule recompose4 [OF lt])
  have "v div 65536 = of_char A" unfolding v_def by (rule char_of_high [OF b c])
  then show "char_of (w div 65536) = A" by (simp only: r char_of_char)
  have "char_of (v div 256) = (char_of (of_char B :: nat) :: char)" unfolding v_def by (rule char_of_mid [OF c])
  then show "char_of (w div 256) = B" by (simp only: r char_of_char)
  have "char_of v = (char_of (of_char C :: nat) :: char)" unfolding v_def by (rule char_of_low)
  then show "char_of w = C" by (simp only: r char_of_char)
qed

lemma quantum2:
  fixes A B :: char
  defines "v \<equiv> of_char A * 65536 + of_char B * 256 + (0 :: nat)"
  defines "w \<equiv> (v div 262144) mod 64 * 262144 + (v div 4096) mod 64 * 4096 + (v div 64) mod 64 * 64"
  shows "char_of (w div 65536) = A" and "char_of (w div 256) = B"
proof -
  have a: "(of_char A :: nat) < 256" and b: "(of_char B :: nat) < 256" by simp_all
  have lt: "v < 16777216" unfolding v_def using a b by linarith
  have "v = 64 * (of_char A * 1024 + of_char B * 4)" unfolding v_def by simp
  then have m: "v mod 64 = 0" by (simp only: mod_mult_self1_is_0)
  have r: "w = v" unfolding w_def using recompose4 [OF lt] m by linarith
  have "v div 65536 = of_char A" unfolding v_def by (rule char_of_high [OF b]) simp
  then show "char_of (w div 65536) = A" by (simp only: r char_of_char)
  have "char_of (v div 256) = (char_of (of_char B :: nat) :: char)" unfolding v_def by (rule char_of_mid) simp
  then show "char_of (w div 256) = B" by (simp only: r char_of_char)
qed

lemma quantum1:
  fixes A :: char
  defines "v \<equiv> of_char A * 65536 + 0 * 256 + (0 :: nat)"
  defines "w \<equiv> (v div 262144) mod 64 * 262144 + (v div 4096) mod 64 * 4096"
  shows "char_of (w div 65536) = A"
proof -
  have a: "(of_char A :: nat) < 256" by simp
  have lt: "v < 16777216" unfolding v_def using a by linarith
  have "v = 64 * (of_char A * 1024)" unfolding v_def by simp
  then have m: "v mod 64 = 0" by (simp only: mod_mult_self1_is_0)
  have "v = 64 * (64 * (of_char A * 16))" unfolding v_def by simp
  then have "v div 64 = 64 * (of_char A * 16)" by simp
  then have m2: "v div 64 mod 64 = 0" by (simp only: mod_mult_self1_is_0)
  have r: "w = v" unfolding w_def using recompose4 [OF lt] m m2 by linarith
  have "v div 65536 = of_char A" unfolding v_def by (rule char_of_high) simp_all
  then show "char_of (w div 65536) = A" by (simp only: r char_of_char)
qed

lemma decode_quanta_sextets: "decode_quanta (sextets xs) = Some xs"
proof (induction xs rule: sextets.induct)
  case (1 a b c rest)
  then show ?case
    by (simp only: sextets.simps decode_quanta.simps Let_def option.case quantum3)
next
  case (2 a b)
  show ?case
    using quantum2 [of a b]
    by (simp only: sextets.simps decode_quanta.simps Let_def add_0_right)
next
  case (3 a)
  show ?case
    using quantum1 [of a]
    by (simp only: sextets.simps decode_quanta.simps Let_def add_0_right mult_zero_left)
next
  case 4
  show ?case by simp
qed

lemma filter_Encode:
  "filter (\<lambda>c. c \<noteq> CHR 0x0A \<and> c \<noteq> CHR 0x0D) (Encode xs) = Encode xs"
proof -
  have "\<And>c. c \<in> set (Encode xs) \<Longrightarrow> c \<noteq> CHR 0x0A \<and> c \<noteq> CHR 0x0D"
    using Encode_not_space by (auto simp: isSpace_def)
  then show ?thesis by (simp add: filter_id_conv)
qed

lemma Decode_Encode: "Decode (Encode xs) = Inr xs"
proof -
  have "those_opt (map decodeMap (Encode xs)) = Some (sextets xs)"
    unfolding Encode_sextets by (rule those_opt_decodeMap) (rule sextets_less)
  then show ?thesis by (simp add: Decode_def filter_Encode decode_quanta_sextets)
qed

lemma DecodedLen_EncodedLen: "DecodedLen (EncodedLen n) \<le> n"
  by (simp add: DecodedLen_def EncodedLen_def)

lemma decode_buffer_Encode: "decode_buffer (Encode xs) = Inr xs"
  using DecodedLen_EncodedLen [of "length xs"]
  by (simp add: decode_buffer_def Decode_Encode length_Encode)


section \<open>A token that fits one read\<close>

lemma bytes_Reader_one:
  "data \<noteq> [] \<Longrightarrow> length data \<le> 4096 \<Longrightarrow> bytes_Reader data = [data]"
  by (simp add: bytes_Reader.simps [of data] bytes_Reader.simps [of "[]"])

lemma scan_segments_three:
  assumes h: "CHR ''.'' \<notin> set h" and p: "CHR ''.'' \<notin> set p" and s: "CHR ''.'' \<notin> set s"
  shows "scan_segments split_init (h @ CHR ''.'' # p @ CHR ''.'' # s) =
           (\<lparr>protected = h, payload = p, signature = s, periods = 2, state = 2\<rparr>, [])"
proof -
  define st1 where "st1 = \<lparr>protected = h, payload = [], signature = [], periods = 1, state = 1\<rparr>"
  define st2 where "st2 = \<lparr>protected = h, payload = p, signature = [], periods = 2, state = 2\<rparr>"
  have 1: "scan_segments split_init (h @ CHR ''.'' # p @ CHR ''.'' # s) = scan_segments st1 (p @ CHR ''.'' # s)"
    using scan_segments_dot [OF IndexByte_append_dot [OF h, of "p @ CHR ''.'' # s"], of split_init]
    by (simp add: split_init_def assign_segment_def st1_def)
  have 2: "scan_segments st1 (p @ CHR ''.'' # s) = scan_segments st2 s"
    using scan_segments_dot [OF IndexByte_append_dot [OF p, of s], of st1]
    by (simp add: assign_segment_def st1_def st2_def numeral_2_eq_2)
  have 3: "scan_segments st2 s = (st2\<lparr>signature := s\<rparr>, [])"
  proof (cases "s = []")
    case True
    then show ?thesis by (simp add: st2_def)
  next
    case False
    from scan_segments_no_dot [OF IndexByte_absent [OF s] False, of st2]
    show ?thesis by (simp add: assign_segment_def st2_def)
  qed
  show ?thesis by (simp only: 1 2 3) (simp add: st2_def)
qed

lemma SplitCompact_one_read:
  assumes h: "CHR ''.'' \<notin> set h" and p: "CHR ''.'' \<notin> set p" and s: "CHR ''.'' \<notin> set s"
    and l: "length (h @ CHR ''.'' # p @ CHR ''.'' # s) \<le> 4096"
  shows "SplitCompact (bytes_Reader (h @ CHR ''.'' # p @ CHR ''.'' # s)) = Inr (h, p, s)"
proof -
  have "bytes_Reader (h @ CHR ''.'' # p @ CHR ''.'' # s) = [h @ CHR ''.'' # p @ CHR ''.'' # s]"
    by (rule bytes_Reader_one [OF _ l]) simp
  then show ?thesis
    by (simp add: SplitCompact_def scan_segments_three [OF h p s])
qed

lemma Sign_Verify_one_read:
  assumes sn: "sign_New alg = Inr signer"
    and mh: "marshal_headers hdrs (sign_Algorithm signer) = Inr hdrbuf"
    and ne: "hdrbuf \<noteq> []"
    and sg: "sign_Sign signer (Encode hdrbuf @ ''.'' @ Encode pl) key = Inr sig"
    and vn: "verify_New alg = Inr verifier"
    and ok: "verifier (Encode hdrbuf @ ''.'' @ Encode pl) sig key = None"
    and l: "length (Encode hdrbuf) + length (Encode pl) + length (Encode sig) + 2 \<le> 4096"
  shows "\<exists>tok. Sign sign_New marshal_headers hdrs pl alg key = Inr tok
           \<and> Verify verify_New json_Unmarshal tok alg key = Inr pl"
proof -
  define tok where "tok = Encode hdrbuf @ CHR ''.'' # Encode pl @ CHR ''.'' # Encode sig"
  have s: "Sign sign_New marshal_headers hdrs pl alg key = Inr tok"
    using sn mh sg by (simp add: Sign_def Let_def tok_def)
  have "SplitCompact (bytes_Reader tok) = Inr (Encode hdrbuf, Encode pl, Encode sig)"
    unfolding tok_def using l by (intro SplitCompact_one_read Encode_no_dot) simp
  then have "verify_compact verifier key tok = Inr pl"
    using ok by (simp add: verify_compact_def decode_buffer_Encode)
  moreover have "Verify verify_New json_Unmarshal tok alg key = verify_compact verifier key tok"
    unfolding tok_def by (rule Verify_token [where verify_New = verify_New, OF vn ne])
  ultimately show ?thesis using s by simp
qed

section \<open>Concrete encodings\<close>

lemma Encode_hello: "Encode ''hello'' = ''aGVsbG8''"
  by (simp add: Let_def enc6_def encodeURL_def)

lemma Encode_header_RS256: \<open>Encode ''{"alg":"RS256"}'' = ''eyJhbGciOiJSUzI1NiJ9''\<close>
  by (simp add: Let_def enc6_def encodeURL_def)

lemma Encode_header_HS256: \<open>Encode ''{"alg":"HS256"}'' = ''eyJhbGciOiJIUzI1NiJ9''\<close>
  by (simp add: Let_def enc6_def encodeURL_def)

lemma Encode_header_HS256': "Encode header_HS256 = ''eyJhbGciOiJIUzI1NiJ9''"
  unfolding header_HS256_def by (rule Encode_header_HS256)

lemma Encode_pay: "Encode ''pay'' = ''cGF5''"
  by (simp add: Let_def enc6_def encodeURL_def)

lemma Encode_sig: "Encode ''sig'' = ''c2ln''"
  by (simp add: Let_def enc6_def encodeURL_def)

lemma Encode_other: "Encode ''other'' = ''b3RoZXI''"
  by (simp add: Let_def enc6_def encodeURL_def)

lemma compact_token_Encode:
  "compact_token = Encode header_HS256 @ CHR ''.'' # Encode ''pay'' @ CHR ''.'' # Encode ''sig''"
  by (simp add: compact_token_def Encode_header_HS256' Encode_pay Encode_sig del: Encode.simps)

section \<open>The compact round trip\<close>

text \<open>
  Claim C1 (compact round trip): \<^verbatim>\<open>Verify(Sign(payload, alg, key), alg, key)\<close> is the
  payload. The theorem evaluates the code at a payload of 4096 bytes, a header of 15
  bytes and a signer that never fails: \<^verbatim>\<open>Sign\<close> returns a token, and whatever the
  verifier answers, \<^verbatim>\<open>Verify\<close> does not return the payload. The token is longer than
  the 4096 bytes that \<^verbatim>\<open>SplitCompact\<close> reads at a time, the first read ends inside the
  payload segment, and the inner loop takes the end of what was read for the end of the
  segment.
\<close>

theorem C1_round_trip_fails_beyond_one_read:
  \<open>\<exists>tok. Sign (\<lambda>a. Inr \<lparr>sign_Algorithm = a, sign_Sign = (\<lambda>m k. Inr (sig_of m k))\<rparr>)
             (\<lambda>h a. Inr ''{"alg":"HS256"}'') hdrs big_payload ''HS256'' key = Inr tok
         \<and> Verify verify_New json_Unmarshal tok ''HS256'' key \<noteq> Inr big_payload\<close>
proof -
  define hdrbuf :: bytes where \<open>hdrbuf = ''{"alg":"HS256"}''\<close>
  define h where "h = Encode hdrbuf"
  define p where "p = Encode big_payload"
  define sg where "sg = sig_of (h @ ''.'' @ p) key"
  define tok where "tok = h @ CHR ''.'' # p @ CHR ''.'' # Encode sg"
  have s: "Sign (\<lambda>a. Inr \<lparr>sign_Algorithm = a, sign_Sign = (\<lambda>m k. Inr (sig_of m k))\<rparr>)
             (\<lambda>h a. Inr hdrbuf) hdrs big_payload ''HS256'' key = Inr tok"
    by (simp add: Sign_def Let_def tok_def sg_def h_def p_def)
  have lh: "length h = 20" by (simp add: h_def length_Encode hdrbuf_def EncodedLen_def)
  have lp: "length p = 5462" by (simp add: p_def length_Encode big_payload_def EncodedLen_def)
  have hn: "hdrbuf \<noteq> []" by (simp add: hdrbuf_def)
  have "Verify verify_New json_Unmarshal tok ''HS256'' key \<noteq> Inr big_payload"
  proof (cases "verify_New ''HS256''")
    case (Inl e)
    then show ?thesis by (simp add: Verify_def)
  next
    case (Inr verifier)
    have v: "Verify verify_New json_Unmarshal tok ''HS256'' key = verify_compact verifier key tok"
      unfolding tok_def h_def p_def
      by (rule Verify_token [where verify_New = verify_New and alg = "''HS256''", OF Inr hn])
    show ?thesis
    proof
      assume "Verify verify_New json_Unmarshal tok ''HS256'' key = Inr big_payload"
      with v have "verify_compact verifier key (h @ CHR ''.'' # p @ CHR ''.'' # Encode sg) = Inr big_payload"
        by (simp add: tok_def)
      from verify_compact_cut [OF _ _ _ _ this]
      have "length big_payload = DecodedLen (4095 - length h)"
        using lh lp by (simp add: h_def p_def Encode_no_dot)
      then show False by (simp add: lh big_payload_def DecodedLen_def)
    qed
  qed
  with s show ?thesis unfolding hdrbuf_def by blast
qed

section \<open>Counting the periods\<close>





text \<open>
  The conditions on the segments matter: the input \<^verbatim>\<open>!.!.!\<close> has two periods and is
  rejected at the decoding of the header, whatever the JSON decoder does.
\<close>

lemma decodeMap_bang: "decodeMap (CHR ''!'') = None"
  by (simp add: decodeMap_def encodeURL_def)

lemma parseCompact_bad_base64:
  "count_list ''!.!.!'' (CHR ''.'') = 2
   \<and> (\<forall>json_Unmarshal_Header.
         parseCompact json_Unmarshal_Header (bytes_Reader ''!.!.!'') =
           Inl (Wrap CorruptInputError ''failed to decode headers''))"
proof -
  have r: "bytes_Reader ''!.!.!'' = [''!.!.!'']"
    by (simp add: bytes_Reader.simps [of "''!.!.!''"] bytes_Reader.simps [of "[]"])
  have i1: "IndexByte ''!.!.!'' (CHR ''.'') = Some 1" by (simp add: IndexByte_def)
  have i2: "IndexByte ''!.!'' (CHR ''.'') = Some 1" by (simp add: IndexByte_def)
  have i3: "IndexByte ''!'' (CHR ''.'') = None" by (simp add: IndexByte_def)
  have s: "SplitCompact [''!.!.!''] = Inr (''!'', ''!'', ''!'')"
    by (simp add: SplitCompact_def Let_def split_init_def scan_segments_dot [OF i1]
        scan_segments_dot [OF i2] scan_segments_no_dot [OF i3] assign_segment_def)
  have d: "decode_buffer ''!'' = Inl CorruptInputError"
    by (simp add: decode_buffer_def Decode_def decodeMap_bang)
  show ?thesis by (simp add: r s d parseCompact_def)
qed

section \<open>The size of a generated symmetric key\<close>








section \<open>The signing input\<close>

text \<open>
  With a signer that returns what it is asked to sign, the signature in the result is
  the signing input. \<^verbatim>\<open>Sign\<close> and \<^verbatim>\<open>SignMulti\<close> sign the encoded header, a period and
  the encoded payload; \<^verbatim>\<open>MultiSign\<close> of \<^verbatim>\<open>signer.go\<close> signs the header as
  \<^verbatim>\<open>json.Marshal\<close> returned it, not encoded.
\<close>

lemma Sign_signing_input:
  "Sign (\<lambda>a. Inr echo_sign_Signer) (\<lambda>h a. Inr hdrbuf) hdrs pl alg key =
     Inr ((Encode hdrbuf @ ''.'' @ Encode pl) @ ''.'' @ Encode (Encode hdrbuf @ ''.'' @ Encode pl))"
  by (simp add: Sign_def echo_sign_Signer_def Let_def)

lemma SignMulti_signing_input:
  "SignMulti (\<lambda>a. Inr hdrbuf) json_Marshal pl [echo_PayloadSigner] =
     json_Marshal
       \<lparr>sr_Payload = Encode pl,
        sr_Signatures =
          [\<lparr>sp_Protected = Encode hdrbuf,
            sp_Signature = Encode (Encode hdrbuf @ ''.'' @ Encode pl)\<rparr>]\<rparr>"
  by (simp add: SignMulti_def echo_PayloadSigner_def Let_def)

lemma MultiSign_signing_input:
  "MultiSign_MultiSign (\<lambda>h. Inr protbuf) \<lparr>Signers = [echo_signer]\<rparr> pl =
     Inr \<lparr>Payload = pl,
          Signatures =
            [\<lparr>PublicHeader = NewHeader,
              ProtectedHeader = Some \<lparr>Header = NewHeader\<lparr>Algorithm := RS256\<rparr>, Source = []\<rparr>,
              Signature = protbuf @ ''.'' @ Encode pl\<rparr>]\<rparr>"
  by (simp add: MultiSign_MultiSign_def Base64Encode_def echo_signer_def Let_def NewHeader_def)

text \<open>
  Claim C2 (every signing operation passes the encoded protected header, one period and
  the encoded payload to the primitive). The theorem evaluates \<^verbatim>\<open>MultiSign\<close> on the
  payload \<^verbatim>\<open>hello\<close> with one signer and the header \<^verbatim>\<open>{"alg":"RS256"}\<close>: the bytes
  signed begin with the header's JSON text, where the claim has its base64url encoding.
\<close>

theorem C2_MultiSign_signs_the_raw_header:
  \<open>MultiSign_MultiSign (\<lambda>h. Inr ''{"alg":"RS256"}'') \<lparr>Signers = [echo_signer]\<rparr> ''hello'' =
     Inr \<lparr>Payload = ''hello'',
          Signatures =
            [\<lparr>PublicHeader = NewHeader,
              ProtectedHeader = Some \<lparr>Header = NewHeader\<lparr>Algorithm := RS256\<rparr>, Source = []\<rparr>,
              Signature = ''{"alg":"RS256"}.aGVsbG8''\<rparr>]\<rparr>
   \<and> Encode ''{"alg":"RS256"}'' @ ''.'' @ Encode ''hello'' = ''eyJhbGciOiJSUzI1NiJ9.aGVsbG8''
   \<and> ''{"alg":"RS256"}.aGVsbG8'' \<noteq> Encode ''{"alg":"RS256"}'' @ ''.'' @ Encode ''hello''\<close>
  by (simp add: MultiSign_MultiSign_def Base64Encode_def echo_signer_def Let_def NewHeader_def
      Encode_hello Encode_header_RS256 del: Encode.simps)

section \<open>What the constructors check\<close>

text \<open>
  Claim C3 (construction validates the algorithm and the key; an ES256 signer on P-384
  or P-521 is rejected at construction, an HMAC signer with another algorithm fails).
  On the code: \<^verbatim>\<open>NewRsaSign\<close>, for every key and for no key, and \<^verbatim>\<open>NewEcdsaSign\<close>, for
  every key on any curve, fail exactly when the algorithm is not one of their family,
  and then with \<^verbatim>\<open>ErrUnsupportedAlgorithm\<close>; otherwise they return a signer that holds
  the algorithm and the key as they were given (the ECDSA signer also the public key of
  that key). So the outcome of both does not depend on the key. A curve whose bit size
  is not that of the digest is rejected by \<^verbatim>\<open>Sign\<close>.
\<close>

theorem C3_constructors_check_the_algorithm_only:
  "((\<exists>e. NewRsaSign alg rk = Inl e) \<longleftrightarrow>
      \<not> (alg = RS256 \<or> alg = RS384 \<or> alg = RS512 \<or> alg = PS256 \<or> alg = PS384 \<or> alg = PS512))
   \<and> (NewRsaSign alg rk = Inl e \<longrightarrow> e = ErrUnsupportedAlgorithm)
   \<and> (NewRsaSign alg rk = Inr rs \<longrightarrow>
        rs = \<lparr>rs_Algorithm = alg, rs_PrivateKey = rk, rs_PublicKey = None,
              rs_KeyID = [], rs_JSONWebKey = None\<rparr>)
   \<and> (isl (NewRsaSign alg rk) = isl (NewRsaSign alg rk'))
   \<and> ((\<exists>e. NewEcdsaSign alg (Some k) = Inl e) \<longleftrightarrow>
        \<not> (alg = ES256 \<or> alg = ES384 \<or> alg = ES512))
   \<and> (NewEcdsaSign alg (Some k) = Inl e \<longrightarrow> e = ErrUnsupportedAlgorithm)
   \<and> (NewEcdsaSign alg ek = Inl ErrUnsupportedAlgorithm \<longleftrightarrow>
        \<not> (alg = ES256 \<or> alg = ES384 \<or> alg = ES512))
   \<and> (isl (NewEcdsaSign alg (Some k)) = isl (NewEcdsaSign alg (Some k')))
   \<and> (alg = ES256 \<or> alg = ES384 \<or> alg = ES512 \<longrightarrow>
        NewEcdsaSign alg (Some k) =
          Inr \<lparr>ecs_Algorithm = alg, ecs_PrivateKey = Some k, ecs_PublicKey = Some (ec_Public k),
               ecs_KeyID = [], ecs_JSONWebKey = None\<rparr>)
   \<and> (NewEcdsaSign alg (Some k) = Inr sign \<longrightarrow>
        (\<exists>h. EcdsaSign_hash sign = Inr h
           \<and> (BitSize (Curve (ec_Public k)) \<noteq> Hash_Size h * 8 \<longrightarrow>
                EcdsaSign_Sign c sign pl = Inl (New ''key size does not match curve bit size''))))"
proof (intro conjI impI)
  show "(\<exists>e. NewRsaSign alg rk = Inl e) \<longleftrightarrow>
      \<not> (alg = RS256 \<or> alg = RS384 \<or> alg = RS512 \<or> alg = PS256 \<or> alg = PS384 \<or> alg = PS512)"
    by (simp add: NewRsaSign_def)
  show "isl (NewRsaSign alg rk) = isl (NewRsaSign alg rk')"
    by (simp add: NewRsaSign_def)
  show "(\<exists>e. NewEcdsaSign alg (Some k) = Inl e) \<longleftrightarrow>
        \<not> (alg = ES256 \<or> alg = ES384 \<or> alg = ES512)"
    by (simp add: NewEcdsaSign_def)
  show "NewEcdsaSign alg ek = Inl ErrUnsupportedAlgorithm \<longleftrightarrow>
        \<not> (alg = ES256 \<or> alg = ES384 \<or> alg = ES512)"
    by (cases ek) (simp_all add: NewEcdsaSign_def)
  show "isl (NewEcdsaSign alg (Some k)) = isl (NewEcdsaSign alg (Some k'))"
    by (simp add: NewEcdsaSign_def)
next
  assume "NewRsaSign alg rk = Inl e"
  then show "e = ErrUnsupportedAlgorithm"
    by (simp add: NewRsaSign_def split: if_splits)
next
  assume "NewRsaSign alg rk = Inr rs"
  then show "rs = \<lparr>rs_Algorithm = alg, rs_PrivateKey = rk, rs_PublicKey = None,
              rs_KeyID = [], rs_JSONWebKey = None\<rparr>"
    by (simp add: NewRsaSign_def split: if_splits)
next
  assume "NewEcdsaSign alg (Some k) = Inl e"
  then show "e = ErrUnsupportedAlgorithm"
    by (simp add: NewEcdsaSign_def split: if_splits)
next
  assume "alg = ES256 \<or> alg = ES384 \<or> alg = ES512"
  then show "NewEcdsaSign alg (Some k) =
          Inr \<lparr>ecs_Algorithm = alg, ecs_PrivateKey = Some k, ecs_PublicKey = Some (ec_Public k),
               ecs_KeyID = [], ecs_JSONWebKey = None\<rparr>"
    by (simp add: NewEcdsaSign_def)
next
  assume n: "NewEcdsaSign alg (Some k) = Inr sign"
  then have a: "alg = ES256 \<or> alg = ES384 \<or> alg = ES512"
    and s: "sign = \<lparr>ecs_Algorithm = alg, ecs_PrivateKey = Some k, ecs_PublicKey = Some (ec_Public k),
               ecs_KeyID = [], ecs_JSONWebKey = None\<rparr>"
    by (auto simp: NewEcdsaSign_def split: if_splits)
  from a s have "\<exists>h. EcdsaSign_hash sign = Inr h"
    by (auto simp: EcdsaSign_hash_def)
  then obtain h where h: "EcdsaSign_hash sign = Inr h" ..
  have "BitSize (Curve (ec_Public k)) \<noteq> Hash_Size h * 8 \<longrightarrow>
          EcdsaSign_Sign c sign pl = Inl (New ''key size does not match curve bit size'')"
    using h s by (simp add: EcdsaSign_Sign_def Let_def)
  with h show "\<exists>h. EcdsaSign_hash sign = Inr h
           \<and> (BitSize (Curve (ec_Public k)) \<noteq> Hash_Size h * 8 \<longrightarrow>
                EcdsaSign_Sign c sign pl = Inl (New ''key size does not match curve bit size''))"
    by blast
qed

theorem C3_constructors_check_the_algorithm_only_witness:
  "NewRsaSign ''FooBar'' None = Inl ErrUnsupportedAlgorithm
   \<and> NewRsaSign ''FooBar'' (Some rsa_key) = Inl ErrUnsupportedAlgorithm
   \<and> NewRsaSign PS384 (Some rsa_key) =
       Inr \<lparr>rs_Algorithm = PS384, rs_PrivateKey = Some rsa_key, rs_PublicKey = None,
            rs_KeyID = [], rs_JSONWebKey = None\<rparr>
   \<and> NewRsaSign PS384 None =
       Inr \<lparr>rs_Algorithm = PS384, rs_PrivateKey = None, rs_PublicKey = None,
            rs_KeyID = [], rs_JSONWebKey = None\<rparr>
   \<and> NewEcdsaSign ''RS256'' (Some (ec_key elliptic_P256)) = Inl ErrUnsupportedAlgorithm
   \<and> (\<exists>sign. NewEcdsaSign ES256 (Some (ec_key elliptic_P384)) = Inr sign
         \<and> ecs_PrivateKey sign = Some (ec_key elliptic_P384)
         \<and> EcdsaSign_Sign toy_crypto sign ''abc'' =
             Inl (New ''key size does not match curve bit size''))"
proof -
  note t = C3_constructors_check_the_algorithm_only
  have nf: "\<not> (''FooBar'' = RS256 \<or> ''FooBar'' = RS384 \<or> ''FooBar'' = RS512
               \<or> ''FooBar'' = PS256 \<or> ''FooBar'' = PS384 \<or> ''FooBar'' = PS512)"
    by (simp add: RS256_def RS384_def RS512_def PS256_def PS384_def PS512_def)
  have ne: "\<not> (''RS256'' = ES256 \<or> ''RS256'' = ES384 \<or> ''RS256'' = ES512)"
    by (simp add: ES256_def ES384_def ES512_def)
  have rsa_fail: "NewRsaSign ''FooBar'' rk = Inl ErrUnsupportedAlgorithm" for rk
  proof -
    from t [where alg = "''FooBar''" and rk = rk, THEN conjunct1] nf
    obtain e where e: "NewRsaSign ''FooBar'' rk = Inl e" by blast
    from t [where alg = "''FooBar''" and rk = rk and e = e, THEN conjunct2, THEN conjunct1,
        rule_format, OF e] e
    show ?thesis by simp
  qed
  have rsa_ok: "NewRsaSign PS384 rk =
       Inr \<lparr>rs_Algorithm = PS384, rs_PrivateKey = rk, rs_PublicKey = None,
            rs_KeyID = [], rs_JSONWebKey = None\<rparr>" for rk
  proof -
    from t [where alg = PS384 and rk = rk, THEN conjunct1]
    have "\<not> (\<exists>e. NewRsaSign PS384 rk = Inl e)" by simp
    then obtain rs where rs: "NewRsaSign PS384 rk = Inr rs"
      by (cases "NewRsaSign PS384 rk") auto
    from t [where alg = PS384 and rk = rk and rs = rs, THEN conjunct2, THEN conjunct2,
        THEN conjunct1, rule_format, OF rs] rs
    show ?thesis by simp
  qed
  have 5: "NewEcdsaSign ''RS256'' (Some (ec_key elliptic_P256)) = Inl ErrUnsupportedAlgorithm"
  proof -
    from t [where alg = "''RS256''" and k = "ec_key elliptic_P256", THEN conjunct2, THEN conjunct2,
        THEN conjunct2, THEN conjunct2, THEN conjunct1] ne
    obtain e where e: "NewEcdsaSign ''RS256'' (Some (ec_key elliptic_P256)) = Inl e" by blast
    from t [where alg = "''RS256''" and k = "ec_key elliptic_P256" and e = e, THEN conjunct2,
        THEN conjunct2, THEN conjunct2, THEN conjunct2, THEN conjunct2, THEN conjunct1,
        rule_format, OF e] e
    show ?thesis by simp
  qed
  define sign where "sign = \<lparr>ecs_Algorithm = ES256, ecs_PrivateKey = Some (ec_key elliptic_P384),
      ecs_PublicKey = Some (ec_Public (ec_key elliptic_P384)), ecs_KeyID = [], ecs_JSONWebKey = None\<rparr>"
  have n: "NewEcdsaSign ES256 (Some (ec_key elliptic_P384)) = Inr sign"
    using t [where alg = ES256 and k = "ec_key elliptic_P384", THEN conjunct2, THEN conjunct2,
        THEN conjunct2, THEN conjunct2, THEN conjunct2, THEN conjunct2, THEN conjunct2,
        THEN conjunct2, THEN conjunct1]
    by (simp add: sign_def)
  have h: "EcdsaSign_hash sign = Inr SHA256" by (simp add: sign_def EcdsaSign_hash_def)
  have b: "BitSize (Curve (ec_Public (ec_key elliptic_P384))) \<noteq> Hash_Size SHA256 * 8"
    by (simp add: ec_key_def elliptic_P384_def)
  from t [where alg = ES256 and k = "ec_key elliptic_P384" and sign = sign and c = toy_crypto
        and pl = "''abc''", THEN conjunct2, THEN conjunct2, THEN conjunct2, THEN conjunct2,
        THEN conjunct2, THEN conjunct2, THEN conjunct2, THEN conjunct2, THEN conjunct2,
        rule_format, OF n]
  obtain h' where hh: "EcdsaSign_hash sign = Inr h'"
    and imp: "BitSize (Curve (ec_Public (ec_key elliptic_P384))) \<noteq> Hash_Size h' * 8 \<longrightarrow>
                EcdsaSign_Sign toy_crypto sign ''abc'' = Inl (New ''key size does not match curve bit size'')"
    by blast
  from hh h have "h' = SHA256" by simp
  with imp b
  have 3: "EcdsaSign_Sign toy_crypto sign ''abc'' = Inl (New ''key size does not match curve bit size'')"
    by blast
  have pk: "ecs_PrivateKey sign = Some (ec_key elliptic_P384)" by (simp add: sign_def)
  from n pk 3 have 6: "\<exists>sign. NewEcdsaSign ES256 (Some (ec_key elliptic_P384)) = Inr sign
         \<and> ecs_PrivateKey sign = Some (ec_key elliptic_P384)
         \<and> EcdsaSign_Sign toy_crypto sign ''abc'' =
             Inl (New ''key size does not match curve bit size'')"
    by blast
  from rsa_fail [of None] rsa_fail [of "Some rsa_key"] rsa_ok [of "Some rsa_key"] rsa_ok [of None] 5 6
  show ?thesis by (intro conjI)
qed

text \<open>
  An ES256 signer is constructed for a key on P-384 and for a key on P-521.
\<close>

theorem C3_es256_signer_on_other_curves:
  "(\<exists>sign. NewEcdsaSign ES256 (Some (ec_key elliptic_P384)) = Inr sign)
   \<and> (\<exists>sign. NewEcdsaSign ES256 (Some (ec_key elliptic_P521)) = Inr sign)
   \<and> BitSize (Curve (ec_Public (ec_key elliptic_P384))) = 384
   \<and> BitSize (Curve (ec_Public (ec_key elliptic_P521))) = 521"
  by (simp add: NewEcdsaSign_def ec_key_def elliptic_P384_def elliptic_P521_def)

section \<open>The width of an ECDSA signature\<close>

lemma length_copy_at: "copy_at out lo data = Inr out' \<Longrightarrow> length out' = length out"
  by (auto simp: copy_at_def split: if_splits)

lemma Bytes_0 [simp]: "Bytes 0 = []"
  by (simp add: Bytes.simps [of 0])

lemma length_Bytes: "r < 256 ^ n \<Longrightarrow> length (Bytes r) \<le> n"
proof (induction n arbitrary: r)
  case 0
  then show ?case by simp
next
  case (Suc n)
  show ?case
  proof (cases "r = 0")
    case True
    then show ?thesis by simp
  next
    case False
    from Suc.prems have "r div 256 < 256 ^ n"
      by (simp add: less_mult_imp_div_less mult.commute)
    from Suc.IH [OF this] False show ?thesis by (simp add: Bytes.simps [of r])
  qed
qed

lemma copy_at_first:
  assumes r: "length R \<le> n"
  shows "copy_at (replicate (2 * n) (CHR 0x00)) (int n - int (length R)) R =
           Inr (left_pad n R @ replicate n (CHR 0x00))"
proof -
  have n1: "nat (int n - int (length R)) = n - length R" by simp
  have a: "2 * n - (n - length R) = n + length R" using r by simp
  have b: "2 * n - (n - length R + length R) = n" using r by simp
  show ?thesis
    using r by (simp add: copy_at_def n1 a b left_pad_def min_def) arith
qed

lemma copy_at_second:
  assumes a: "length A = n" and s: "length S \<le> n"
  shows "copy_at (A @ replicate n (CHR 0x00)) (int n + (int n - int (length S))) S =
           Inr (A @ left_pad n S)"
proof -
  define lo where "lo = n + (n - length S)"
  have n2: "int n + (int n - int (length S)) = int lo" using s by (simp add: lo_def)
  have t: "take lo (A @ replicate n (CHR 0x00)) = A @ replicate (n - length S) (CHR 0x00)"
    using a by (simp add: lo_def)
  have m: "length (A @ replicate n (CHR 0x00)) - lo = length S" using a s by (simp add: lo_def)
  have d: "drop (lo + length S) (A @ replicate n (CHR 0x00)) = []" using a s by (simp add: lo_def)
  have le: "lo \<le> length (A @ replicate n (CHR 0x00))" using a by (simp add: lo_def)
  have "copy_at (A @ replicate n (CHR 0x00)) (int lo) S =
          Inr (take lo (A @ replicate n (CHR 0x00)) @ take (length (A @ replicate n (CHR 0x00)) - lo) S
               @ drop (lo + length S) (A @ replicate n (CHR 0x00)))"
    using le unfolding copy_at_def by (simp only: nat_int) simp
  then show ?thesis unfolding n2 by (simp only: t m d) (simp add: left_pad_def)
qed

lemma length_left_pad: "length bs \<le> n \<Longrightarrow> length (left_pad n bs) = n"
  by (simp add: left_pad_def)

lemma EcdsaSign_Sign_Inr:
  assumes "EcdsaSign_Sign c sign pl = Inr out"
  shows "\<exists>h k. EcdsaSign_hash sign = Inr h \<and> ecs_PrivateKey sign = Some k
           \<and> BitSize (Curve (ec_Public k)) = Hash_Size h * 8
           \<and> int (length out) = 2 * Hash_Size h"
proof -
  from assms obtain h where h: "EcdsaSign_hash sign = Inr h"
    by (cases "EcdsaSign_hash sign") (simp_all add: EcdsaSign_Sign_def)
  from assms h obtain k where k: "ecs_PrivateKey sign = Some k"
    by (cases "ecs_PrivateKey sign") (simp_all add: EcdsaSign_Sign_def)
  from assms h k have b: "BitSize (Curve (ec_Public k)) = Hash_Size h * 8"
    by (simp add: EcdsaSign_Sign_def Let_def split: if_splits)
  from assms h k b obtain r s where rs: "ecdsa_Sign c k (hash_Sum c h pl) = Inr (r, s)"
    by (cases "ecdsa_Sign c k (hash_Sum c h pl)") (auto simp: EcdsaSign_Sign_def Let_def)
  from assms h k b rs obtain out' where
    o1: "copy_at (replicate (nat (Hash_Size h * 2)) (CHR 0x00))
           (0 * Hash_Size h + (Hash_Size h - int (length (Bytes r)))) (Bytes r) = Inr out'"
    and o2: "copy_at out' (1 * Hash_Size h + (Hash_Size h - int (length (Bytes s)))) (Bytes s) = Inr out"
    by (auto simp: EcdsaSign_Sign_def Let_def split: sum.splits)
  have "0 \<le> Hash_Size h" by (cases h) simp_all
  with length_copy_at [OF o1] length_copy_at [OF o2]
  have "int (length out) = 2 * Hash_Size h" by simp
  with h k b show ?thesis by blast
qed

lemma EcdsaSign_Sign_padded:
  assumes h: "EcdsaSign_hash sign = Inr h" and k: "ecs_PrivateKey sign = Some k"
    and b: "BitSize (Curve (ec_Public k)) = Hash_Size h * 8"
    and rs: "ecdsa_Sign c k (hash_Sum c h pl) = Inr (r, s)"
    and r: "r < 256 ^ nat (Hash_Size h)" and s: "s < 256 ^ nat (Hash_Size h)"
  shows "EcdsaSign_Sign c sign pl =
           Inr (left_pad (nat (Hash_Size h)) (Bytes r) @ left_pad (nat (Hash_Size h)) (Bytes s))"
proof -
  define n where "n = nat (Hash_Size h)"
  have hs: "Hash_Size h = int n" unfolding n_def by (cases h) simp_all
  have lr: "length (Bytes r) \<le> n" using r unfolding n_def by (rule length_Bytes)
  have ls: "length (Bytes s) \<le> n" using s unfolding n_def by (rule length_Bytes)
  have 1: "copy_at (replicate (2 * n) (CHR 0x00)) (int n - int (length (Bytes r))) (Bytes r)
            = Inr (left_pad n (Bytes r) @ replicate n (CHR 0x00))"
    by (rule copy_at_first [OF lr])
  have 2: "copy_at (left_pad n (Bytes r) @ replicate n (CHR 0x00))
             (int n + (int n - int (length (Bytes s)))) (Bytes s)
            = Inr (left_pad n (Bytes r) @ left_pad n (Bytes s))"
    by (rule copy_at_second [OF length_left_pad [OF lr] ls])
  have z: "nat (Hash_Size h * 2) = 2 * n" "0 * Hash_Size h + (Hash_Size h - int (length (Bytes r))) = int n - int (length (Bytes r))"
    "1 * Hash_Size h + (Hash_Size h - int (length (Bytes s))) = int n + (int n - int (length (Bytes s)))"
    by (simp_all add: hs)
  have "EcdsaSign_Sign c sign pl = Inr (left_pad n (Bytes r) @ left_pad n (Bytes s))"
    unfolding EcdsaSign_Sign_def
    by (simp only: Let_def h k rs b z sum.case option.case prod.case 1 2 if_False simp_thms)
  then show ?thesis by (simp only: n_def)
qed

lemma EcdsaSign_Verify_width:
  assumes h: "EcdsaSign_hash v = Inr h"
    and p: "ecs_PublicKey v = Some pub \<or>
            ecs_PublicKey v = None \<and> ecs_PrivateKey v = Some priv \<and> pub = ec_Public priv"
  shows "EcdsaSign_Verify c v pl sg =
           (if int (length sg) \<noteq> 2 * Hash_Size h then Some ErrInvalidEcdsaSignatureSize
            else if ecdsa_Verify c pub (hash_Sum c h pl)
                      (SetBytes (take (nat (Hash_Size h)) sg))
                      (SetBytes (drop (nat (Hash_Size h)) sg))
                 then None else Some ErrInvalidSignature)"
  using h p by (auto simp: EcdsaSign_Verify_def Let_def)

text \<open>
  What \<^verbatim>\<open>Sign\<close> and \<^verbatim>\<open>Verify\<close> do about the width, for every algorithm and key: a
  signature that \<^verbatim>\<open>Sign\<close> returns has twice the digest size in bytes, which \<^verbatim>\<open>Sign\<close> has
  checked to be the curve's size, and holds R and S left-padded; \<^verbatim>\<open>Verify\<close> compares the
  length with twice the digest size of the algorithm, whatever the curve of the key,
  and reads r and s from the two halves. For P-256 with ES256 and P-384 with ES384 the
  digest size is the size of the curve.
\<close>

lemma EcdsaSign_signature_width:
  "(EcdsaSign_Sign c sign pl = Inr out \<longrightarrow>
      (\<exists>h k. EcdsaSign_hash sign = Inr h \<and> ecs_PrivateKey sign = Some k
             \<and> BitSize (Curve (ec_Public k)) = Hash_Size h * 8
             \<and> int (length out) = 2 * Hash_Size h
             \<and> int (length out) = 2 * ((BitSize (Curve (ec_Public k)) + 7) div 8)))
   \<and> (EcdsaSign_hash sign = Inr h \<and> ecs_PrivateKey sign = Some k
        \<and> BitSize (Curve (ec_Public k)) = Hash_Size h * 8
        \<and> ecdsa_Sign c k (hash_Sum c h pl) = Inr (r, s)
        \<and> r < 256 ^ nat (Hash_Size h) \<and> s < 256 ^ nat (Hash_Size h) \<longrightarrow>
      EcdsaSign_Sign c sign pl =
        Inr (left_pad (nat (Hash_Size h)) (Bytes r) @ left_pad (nat (Hash_Size h)) (Bytes s)))
   \<and> (EcdsaSign_hash v = Inr h' \<and>
        (ecs_PublicKey v = Some pub \<or>
         ecs_PublicKey v = None \<and> ecs_PrivateKey v = Some priv \<and> pub = ec_Public priv) \<longrightarrow>
        (EcdsaSign_Verify c v pl sg = Some ErrInvalidEcdsaSignatureSize \<longleftrightarrow>
           int (length sg) \<noteq> 2 * Hash_Size h')
        \<and> (int (length sg) = 2 * Hash_Size h' \<longrightarrow>
             EcdsaSign_Verify c v pl sg =
               (if ecdsa_Verify c pub (hash_Sum c h' pl)
                     (SetBytes (take (nat (Hash_Size h')) sg))
                     (SetBytes (drop (nat (Hash_Size h')) sg))
                then None else Some ErrInvalidSignature)))"
proof (intro conjI impI)
  assume "EcdsaSign_Sign c sign pl = Inr out"
  from EcdsaSign_Sign_Inr [OF this] obtain h0 k0 where
    f: "EcdsaSign_hash sign = Inr h0" "ecs_PrivateKey sign = Some k0"
       "BitSize (Curve (ec_Public k0)) = Hash_Size h0 * 8" "int (length out) = 2 * Hash_Size h0"
    by blast
  then have "int (length out) = 2 * ((BitSize (Curve (ec_Public k0)) + 7) div 8)" by simp
  with f show "\<exists>h k. EcdsaSign_hash sign = Inr h \<and> ecs_PrivateKey sign = Some k
             \<and> BitSize (Curve (ec_Public k)) = Hash_Size h * 8
             \<and> int (length out) = 2 * Hash_Size h
             \<and> int (length out) = 2 * ((BitSize (Curve (ec_Public k)) + 7) div 8)" by blast
next
  assume "EcdsaSign_hash sign = Inr h \<and> ecs_PrivateKey sign = Some k
        \<and> BitSize (Curve (ec_Public k)) = Hash_Size h * 8
        \<and> ecdsa_Sign c k (hash_Sum c h pl) = Inr (r, s)
        \<and> r < 256 ^ nat (Hash_Size h) \<and> s < 256 ^ nat (Hash_Size h)"
  then show "EcdsaSign_Sign c sign pl =
        Inr (left_pad (nat (Hash_Size h)) (Bytes r) @ left_pad (nat (Hash_Size h)) (Bytes s))"
    by (elim conjE) (rule EcdsaSign_Sign_padded)
next
  assume a: "EcdsaSign_hash v = Inr h' \<and>
        (ecs_PublicKey v = Some pub \<or>
         ecs_PublicKey v = None \<and> ecs_PrivateKey v = Some priv \<and> pub = ec_Public priv)"
  then have w: "EcdsaSign_Verify c v pl sg =
           (if int (length sg) \<noteq> 2 * Hash_Size h' then Some ErrInvalidEcdsaSignatureSize
            else if ecdsa_Verify c pub (hash_Sum c h' pl)
                      (SetBytes (take (nat (Hash_Size h')) sg))
                      (SetBytes (drop (nat (Hash_Size h')) sg))
                 then None else Some ErrInvalidSignature)"
    by (intro EcdsaSign_Verify_width [where priv = priv]) auto
  show "EcdsaSign_Verify c v pl sg = Some ErrInvalidEcdsaSignatureSize \<longleftrightarrow>
           int (length sg) \<noteq> 2 * Hash_Size h'"
    unfolding w by simp
  assume "int (length sg) = 2 * Hash_Size h'"
  then show "EcdsaSign_Verify c v pl sg =
               (if ecdsa_Verify c pub (hash_Sum c h' pl)
                     (SetBytes (take (nat (Hash_Size h')) sg))
                     (SetBytes (drop (nat (Hash_Size h')) sg))
                then None else Some ErrInvalidSignature)"
    unfolding w by simp
qed

lemma length_left_pad_take: "length (left_pad n (take n bs)) = n"
  by (simp add: left_pad_def min_def)

lemma split_132:
  "length sg = 132 \<Longrightarrow> sg = left_pad 66 (take 66 (take 66 sg)) @ left_pad 66 (take 66 (drop 66 sg))"
  by (simp add: left_pad_def)

text \<open>
  Claim C4 (a signature over curve C has 2 * ceil(bits(C)/8) bytes, R and S left-padded;
  verification rejects every other length with the size error and reads r and s from
  the two halves). The code takes the width from the digest of the algorithm, not from
  the curve, and the two differ for ES512, whose curve P-521 has 521 bits, 66 bytes,
  against the 64 bytes of SHA-512. The signer that \<^verbatim>\<open>NewEcdsaSign\<close> makes for ES512 and
  a key on P-521 signs no payload, whatever the library does; and \<^verbatim>\<open>Verify\<close> rejects for
  its size every signature of 132 bytes, R and S of 66 bytes each, while it does not
  reject for its size one of 128 bytes.
\<close>

theorem C4_es512_signature_width_on_p521:
  "2 * ((BitSize (Curve (ec_Public (ec_key elliptic_P521))) + 7) div 8) = 132
   \<and> NewEcdsaSign ES512 (Some (ec_key elliptic_P521)) = Inr ecdsa_signer_p521
   \<and> (\<forall>c pl. EcdsaSign_Sign c ecdsa_signer_p521 pl =
               Inl (New ''key size does not match curve bit size''))
   \<and> (\<forall>c pl R S. EcdsaSign_Verify c ecdsa_signer_p521 pl
                     (left_pad 66 (take 66 R) @ left_pad 66 (take 66 S)) =
                   Some ErrInvalidEcdsaSignatureSize)
   \<and> (\<forall>c pl. EcdsaSign_Verify c ecdsa_signer_p521 pl (replicate 128 (CHR 0x00)) \<noteq>
               Some ErrInvalidEcdsaSignatureSize)"
proof -
  have h: "EcdsaSign_hash ecdsa_signer_p521 = Inr SHA512"
    by (simp add: EcdsaSign_hash_def ecdsa_signer_p521_def ES512_def ES256_def ES384_def)
  have 1: "2 * ((BitSize (Curve (ec_Public (ec_key elliptic_P521))) + 7) div 8) = 132"
    by (simp add: ec_key_def elliptic_P521_def)
  have 2: "NewEcdsaSign ES512 (Some (ec_key elliptic_P521)) = Inr ecdsa_signer_p521"
    by (simp add: NewEcdsaSign_def ecdsa_signer_p521_def)
  have 3: "EcdsaSign_Sign c ecdsa_signer_p521 pl =
               Inl (New ''key size does not match curve bit size'')" for c pl
    by (simp add: EcdsaSign_Sign_def h Let_def)
       (simp add: ecdsa_signer_p521_def ec_key_def elliptic_P521_def)
  have pk: "ecs_PublicKey ecdsa_signer_p521 = Some (ec_Public (ec_key elliptic_P521))"
    by (simp add: ecdsa_signer_p521_def)
  note w = EcdsaSign_Verify_width [OF h disjI1 [OF pk]]
  have 4: "EcdsaSign_Verify c ecdsa_signer_p521 pl
                     (left_pad 66 (take 66 R) @ left_pad 66 (take 66 S)) =
                   Some ErrInvalidEcdsaSignatureSize" for c pl R S
    by (simp add: w length_left_pad_take)
  have 5: "EcdsaSign_Verify c ecdsa_signer_p521 pl (replicate 128 (CHR 0x00)) \<noteq>
               Some ErrInvalidEcdsaSignatureSize" for c pl
    by (simp add: w)
  from 1 2 3 4 5 show ?thesis by (intro conjI allI)
qed

section \<open>JSON serializations\<close>

lemma TrimSpace_json:
  "TrimSpace mixed_json = mixed_json" "TrimSpace flattened_json = flattened_json"
  by (rule TrimSpace_id; simp add: mixed_json_def flattened_json_def plain_def isSpace_def)+

lemma decode_pay: "decode_buffer ''cGF5'' = Inr ''pay''"
  using decode_buffer_Encode [of "''pay''"] by (simp only: Encode_pay)

lemma decode_sig: "decode_buffer ''c2ln'' = Inr ''sig''"
  using decode_buffer_Encode [of "''sig''"] by (simp only: Encode_sig)

lemma decode_other: "decode_buffer ''b3RoZXI'' = Inr ''other''"
  using decode_buffer_Encode [of "''other''"] by (simp only: Encode_other)

text \<open>
  \<^verbatim>\<open>parseJSON\<close> rejects a message with a top-level signature and a non-empty
  \<^verbatim>\<open>signatures\<close> array, and makes a one-entry array of a flattened message.
\<close>

lemma parseJSON_mixed:
  "json_Decode src = Inr m \<Longrightarrow> pj_Message m = Some msg \<Longrightarrow> pj_Signature m = Some sig \<Longrightarrow>
   Signatures msg \<noteq> [] \<Longrightarrow>
     parseJSON json_Decode src =
       Inl (New ''invalid message: mixed flattened/full json serialization'')"
  by (simp add: parseJSON_def)

lemma parseJSON_flattened:
  "json_Decode src = Inr m \<Longrightarrow> pj_Message m = Some msg \<Longrightarrow> pj_Signature m = Some sig \<Longrightarrow>
   Signatures msg = [] \<Longrightarrow> ProtectedHeader sig = Some ph \<Longrightarrow>
     parseJSON json_Decode src =
       Inr (msg\<lparr>Signatures :=
                  [if Algorithm (Header ph) = []
                   then sig\<lparr>ProtectedHeader :=
                              Some (ph\<lparr>Header := (Header ph)\<lparr>Algorithm := NoSignature\<rparr>\<rparr>)\<rparr>
                   else sig]\<rparr>)"
  by (simp add: parseJSON_def Let_def)

text \<open>
  The JSON branch of \<^verbatim>\<open>Verify\<close> has no such check: with a top-level signature it
  overwrites the first entry of a non-empty array and panics on an empty one.
\<close>

lemma verify_json_mixed:
  "verify_json verifier key
     \<lparr>fm_EncodedSignature = Some es,
      fm_EncodedMessage = Some \<lparr>em_Payload = pl, em_Signatures = s1 # rest\<rparr>\<rparr> =
   verify_signatures verifier key pl (Some es # rest)"
  by (simp add: verify_json_def)

lemma verify_json_flattened:
  "verify_json verifier key
     \<lparr>fm_EncodedSignature = Some es,
      fm_EncodedMessage = Some \<lparr>em_Payload = pl, em_Signatures = []\<rparr>\<rparr> =
   Inl (Panic ''index out of range [0] with length 0'')"
  by (simp add: verify_json_def)

text \<open>
  Claim C6 (parsing and verification fail with the mixed-serialization error on an input
  with both a top-level signature and a non-empty \<^verbatim>\<open>signatures\<close> array). The theorem
  evaluates \<^verbatim>\<open>Verify\<close> on such an input: it puts the top-level signature in the place
  of the first entry of the array and verifies against it; with a verifier that accepts
  that signature it returns the payload.
\<close>

theorem C6_Verify_accepts_mixed_serialization:
  "Verify (\<lambda>a. Inr verifier) (\<lambda>b. Inr mixed_message) mixed_json alg key =
     verify_signatures verifier key ''cGF5'' [Some flat_signature]
   \<and> Verify (\<lambda>a. Inr accept_sig) (\<lambda>b. Inr mixed_message) mixed_json alg key = Inr ''pay''"
proof -
  have b: "mixed_json ! 0 = CHR ''{''" "mixed_json \<noteq> []" by (simp_all add: mixed_json_def)
  have v: "\<And>verifier. Verify (\<lambda>a. Inr verifier) (\<lambda>b. Inr mixed_message) mixed_json alg key =
     verify_signatures verifier key ''cGF5'' [Some flat_signature]"
    using b by (simp add: Verify_def TrimSpace_json verify_json_def mixed_message_def)
  have "verify_signatures accept_sig key ''cGF5'' [Some flat_signature] = Inr ''pay''"
    by (simp add: flat_signature_def decode_sig decode_pay accept_sig_def)
  with v show ?thesis by simp
qed

text \<open>
  Claim C7 (Parse and Verify make a one-entry \<^verbatim>\<open>signatures\<close> array of a flattened
  message and go on). The theorem evaluates \<^verbatim>\<open>Verify\<close> on a flattened message: the
  assignment to the first entry of the empty array panics, whatever the verifier.
\<close>

theorem C7_Verify_panics_on_flattened:
  "Verify (\<lambda>a. Inr verifier) (\<lambda>b. Inr flattened_message) flattened_json alg key =
     Inl (Panic ''index out of range [0] with length 0'')"
proof -
  have b: "flattened_json ! 0 = CHR ''{''" "flattened_json \<noteq> []" by (simp_all add: flattened_json_def)
  show ?thesis
    using b by (simp add: Verify_def TrimSpace_json verify_json_def flattened_message_def)
qed

section \<open>Verification with a JWK\<close>

lemma Verify_compact_token:
  "verify_New alg = Inr verifier \<Longrightarrow>
     Verify verify_New json_Unmarshal compact_token alg key =
       (case verifier ''eyJhbGciOiJIUzI1NiJ9.cGF5'' ''sig'' key of
          Some e \<Rightarrow> Inl (Wrap e ''failed to verify message'')
        | None \<Rightarrow> Inr ''pay'')"
proof -
  assume vn: "verify_New alg = Inr verifier"
  have s: "SplitCompact (bytes_Reader compact_token) =
             Inr (Encode header_HS256, Encode ''pay'', Encode ''sig'')"
    unfolding compact_token_Encode
    by (rule SplitCompact_one_read)
       (simp_all add: Encode_no_dot length_Encode EncodedLen_def header_HS256_def del: Encode.simps)
  have "Verify verify_New json_Unmarshal compact_token alg key = verify_compact verifier key compact_token"
    unfolding compact_token_Encode
    by (rule Verify_token [where verify_New = verify_New, OF vn]) (simp add: header_HS256_def)
  also have "\<dots> = (case verifier ''eyJhbGciOiJIUzI1NiJ9.cGF5'' ''sig'' key of
          Some e \<Rightarrow> Inl (Wrap e ''failed to verify message'')
        | None \<Rightarrow> Inr ''pay'')"
    unfolding verify_compact_def s
    by (simp add: decode_buffer_Encode decode_pay Encode_header_HS256' Encode_pay
        del: Encode.simps split: option.split)
  finally show ?thesis .
qed

text \<open>
  Claim C8 (\<^verbatim>\<open>VerifyWithJWK\<close> takes the algorithm from the JWK, and from the protected
  header when the JWK has none). On the code: the key is materialized first; the
  algorithm given to \<^verbatim>\<open>Verify\<close> is always the JWK's \<^verbatim>\<open>alg\<close>, so for a JWK without one
  it is the empty name, and when the verifier factory refuses that name the call fails
  for every message.
\<close>

theorem C8_algorithm_is_the_key_attribute:
  "(Materialize key = Inr kv \<longrightarrow>
      VerifyWithJWK verify_New json_Unmarshal buf key =
        (case Verify verify_New json_Unmarshal buf (Alg key) kv of
           Inl e \<Rightarrow> Inl (Wrap e ''failed to verify message'')
         | Inr pl \<Rightarrow> Inr pl))
   \<and> (Materialize key = Inr kv \<and> Alg key = [] \<and> verify_New [] = Inl e \<longrightarrow>
        VerifyWithJWK verify_New json_Unmarshal buf key =
          Inl (Wrap (Wrap e ''failed to create verifier'') ''failed to verify message''))
   \<and> (Materialize key = Inl e' \<longrightarrow>
        VerifyWithJWK verify_New json_Unmarshal buf key =
          Inl (Wrap e' ''failed to materialize jwk.Key''))"
  by (simp add: VerifyWithJWK_def Verify_def)

theorem C8_algorithm_is_the_key_attribute_witness:
  "VerifyWithJWK toy_verify_New (\<lambda>b. Inl (External ''unused'')) compact_token
     \<lparr>Materialize = Inr ''secret'', Alg = HS256\<rparr> = Inr ''pay''
   \<and> VerifyWithJWK toy_verify_New (\<lambda>b. Inl (External ''unused'')) compact_token jwk_without_alg =
       Inl (Wrap (Wrap ErrUnsupportedAlgorithm ''failed to create verifier'') ''failed to verify message'')
   \<and> VerifyWithJWK toy_verify_New (\<lambda>b. Inl (External ''unused'')) compact_token
       \<lparr>Materialize = Inl (External ''bad key''), Alg = HS256\<rparr> =
       Inl (Wrap (External ''bad key'') ''failed to materialize jwk.Key'')"
proof -
  note t = C8_algorithm_is_the_key_attribute [where verify_New = toy_verify_New
      and json_Unmarshal = "\<lambda>b. Inl (External ''unused'')" and buf = compact_token]
  have v: "Verify toy_verify_New (\<lambda>b. Inl (External ''unused'')) compact_token HS256 ''secret'' = Inr ''pay''"
    using Verify_compact_token [where verify_New = toy_verify_New and alg = HS256 and verifier = accept_sig]
    by (simp add: toy_verify_New_def accept_sig_def)
  have 1: "VerifyWithJWK toy_verify_New (\<lambda>b. Inl (External ''unused'')) compact_token
     \<lparr>Materialize = Inr ''secret'', Alg = HS256\<rparr> = Inr ''pay''"
    using t [where key = "\<lparr>Materialize = Inr ''secret'', Alg = HS256\<rparr>" and kv = "''secret''",
        THEN conjunct1] v
    by simp
  have 2: "VerifyWithJWK toy_verify_New (\<lambda>b. Inl (External ''unused'')) compact_token jwk_without_alg =
       Inl (Wrap (Wrap ErrUnsupportedAlgorithm ''failed to create verifier'') ''failed to verify message'')"
    using t [where key = jwk_without_alg and kv = "''secret''" and e = ErrUnsupportedAlgorithm,
        THEN conjunct2, THEN conjunct1]
    by (simp add: jwk_without_alg_def toy_verify_New_def HS256_def)
  have 3: "VerifyWithJWK toy_verify_New (\<lambda>b. Inl (External ''unused'')) compact_token
       \<lparr>Materialize = Inl (External ''bad key''), Alg = HS256\<rparr> =
       Inl (Wrap (External ''bad key'') ''failed to materialize jwk.Key'')"
    using t [where key = "\<lparr>Materialize = Inl (External ''bad key''), Alg = HS256\<rparr>"
        and e' = "External ''bad key''", THEN conjunct2, THEN conjunct2]
    by simp
  from 1 2 3 show ?thesis by simp
qed

text \<open>
  The protected header of the token names HS256 and \<^verbatim>\<open>Verify\<close> with HS256 returns the
  payload, but \<^verbatim>\<open>VerifyWithJWK\<close> with a JWK without \<^verbatim>\<open>alg\<close> fails.
\<close>

theorem C8_no_fallback_to_the_header:
  \<open>decode_buffer ''eyJhbGciOiJIUzI1NiJ9'' = Inr header_HS256
   \<and> header_HS256 = ''{"alg":"HS256"}''
   \<and> (\<forall>json_Unmarshal.
        Verify toy_verify_New json_Unmarshal compact_token ''HS256'' ''secret'' = Inr ''pay''
        \<and> VerifyWithJWK toy_verify_New json_Unmarshal compact_token jwk_without_alg =
            Inl (Wrap (Wrap ErrUnsupportedAlgorithm ''failed to create verifier'')
                   ''failed to verify message''))\<close>
proof -
  have d: "decode_buffer ''eyJhbGciOiJIUzI1NiJ9'' = Inr header_HS256"
    using decode_buffer_Encode [of header_HS256] by (simp only: Encode_header_HS256')
  have v: "\<And>ju. Verify toy_verify_New ju compact_token ''HS256'' ''secret'' = Inr ''pay''"
    using Verify_compact_token [where verify_New = toy_verify_New and alg = "''HS256''" and verifier = accept_sig]
    by (simp add: toy_verify_New_def accept_sig_def HS256_def)
  have w: "\<And>ju. VerifyWithJWK toy_verify_New ju compact_token jwk_without_alg =
            Inl (Wrap (Wrap ErrUnsupportedAlgorithm ''failed to create verifier'')
                   ''failed to verify message'')"
    by (simp add: VerifyWithJWK_def Verify_def jwk_without_alg_def toy_verify_New_def HS256_def)
  from d v w show ?thesis by (simp add: header_HS256_def)
qed

section \<open>The public key of a verifier\<close>

lemma map_option_External_neq [simp]:
  "map_option External x \<noteq> Some ErrMissingPublicKey"
  "map_option External x \<noteq> Some ErrUnsupportedAlgorithm"
  by (cases x; simp)+

lemma RsaSign_Verify_missing:
  "RsaSign_Verify c s pl sg = Some ErrMissingPublicKey \<Longrightarrow>
     rs_PublicKey s = None \<and> rs_PrivateKey s = None"
proof (cases "RsaSign_hash s")
  case (Inl e)
  then show "RsaSign_Verify c s pl sg = Some ErrMissingPublicKey \<Longrightarrow> ?thesis"
    by (simp add: RsaSign_Verify_def)
next
  case (Inr h)
  assume a: "RsaSign_Verify c s pl sg = Some ErrMissingPublicKey"
  show ?thesis
  proof (cases "rs_PublicKey s")
    case (Some k)
    with a Inr show ?thesis by (simp add: RsaSign_Verify_def split: if_splits)
  next
    case None
    show ?thesis
    proof (cases "rs_PrivateKey s")
      case (Some k)
      with a Inr None show ?thesis by (simp add: RsaSign_Verify_def split: if_splits)
    next
      case pn: None
      with None show ?thesis by simp
    qed
  qed
qed

lemma EcdsaSign_Verify_with_key:
  "EcdsaSign_Verify c (e\<lparr>ecs_PublicKey := Some k\<rparr>) pl sg \<noteq>
     Some (New ''cannot proceed with Verify(): no private/public key available'')"
  by (cases "EcdsaSign_hash e")
     (simp_all add: EcdsaSign_Verify_def EcdsaSign_hash_def Let_def)

lemma SetBytes_snoc: "SetBytes (xs @ [b]) = SetBytes xs * 256 + of_char b"
  by (simp add: SetBytes_def)

lemma SetBytes_zeros: "SetBytes (replicate n (CHR 0x00)) = 0"
  by (induction n) (simp_all add: SetBytes_def)

lemma SetBytes_left_pad: "SetBytes (left_pad n bs) = SetBytes bs"
  using SetBytes_zeros [of "n - length bs"] by (simp add: SetBytes_def left_pad_def)

lemma SetBytes_Bytes: "SetBytes (Bytes r) = r"
proof (induction r rule: Bytes.induct)
  case (1 n)
  show ?case
  proof (cases "n = 0")
    case True
    then show ?thesis by (simp add: SetBytes_def)
  next
    case False
    from 1 [OF False] have "SetBytes (Bytes (n div 256)) = n div 256" .
    then show ?thesis using False
      by (simp add: Bytes.simps [of n] SetBytes_snoc)
  qed
qed

lemma RsaSign_Verify_private_only:
  assumes h: "RsaSign_hash s = Inr h"
    and p: "rs_PublicKey s = None" and k: "rs_PrivateKey s = Some k"
  shows "RsaSign_Verify c s pl sg =
           map_option External
             ((if rs_Algorithm s = RS256 \<or> rs_Algorithm s = RS384 \<or> rs_Algorithm s = RS512
               then rsa_VerifyPKCS1v15 c else rsa_VerifyPSS c)
                (rsa_Public k) h (hash_Sum c h pl) sg)"
proof -
  from h have "rs_Algorithm s = RS256 \<or> rs_Algorithm s = RS384 \<or> rs_Algorithm s = RS512
      \<or> rs_Algorithm s = PS256 \<or> rs_Algorithm s = PS384 \<or> rs_Algorithm s = PS512"
    by (auto simp: RsaSign_hash_def split: if_splits)
  then show ?thesis
    by (auto simp: RsaSign_Verify_def h p k)
qed

text \<open>
  What an ECDSA signer signs, the same signer verifies with the public key of its
  private key: \<^verbatim>\<open>Verify\<close> reads back the two numbers that \<^verbatim>\<open>Sign\<close> wrote.
\<close>

lemma EcdsaSign_Sign_Verify:
  assumes h: "EcdsaSign_hash sign = Inr h" and k: "ecs_PrivateKey sign = Some k"
    and p: "ecs_PublicKey sign = None"
    and b: "BitSize (Curve (ec_Public k)) = Hash_Size h * 8"
    and rs: "ecdsa_Sign c k (hash_Sum c h pl) = Inr (r, s)"
    and r: "r < 256 ^ nat (Hash_Size h)" and s: "s < 256 ^ nat (Hash_Size h)"
  shows "EcdsaSign_Sign c sign pl =
           Inr (left_pad (nat (Hash_Size h)) (Bytes r) @ left_pad (nat (Hash_Size h)) (Bytes s))
         \<and> EcdsaSign_Verify c sign pl'
             (left_pad (nat (Hash_Size h)) (Bytes r) @ left_pad (nat (Hash_Size h)) (Bytes s)) =
             (if ecdsa_Verify c (ec_Public k) (hash_Sum c h pl') r s then None
              else Some ErrInvalidSignature)"
proof -
  define n where "n = nat (Hash_Size h)"
  have hs: "Hash_Size h = int n" unfolding n_def by (cases h) simp_all
  have lr: "length (left_pad n (Bytes r)) = n"
    using r unfolding n_def by (intro length_left_pad length_Bytes)
  have ls: "length (left_pad n (Bytes s)) = n"
    using s unfolding n_def by (intro length_left_pad length_Bytes)
  have 1: "EcdsaSign_Sign c sign pl = Inr (left_pad n (Bytes r) @ left_pad n (Bytes s))"
    unfolding n_def by (rule EcdsaSign_Sign_padded [OF h k b rs r s])
  have "EcdsaSign_Verify c sign pl' (left_pad n (Bytes r) @ left_pad n (Bytes s)) =
          (if ecdsa_Verify c (ec_Public k) (hash_Sum c h pl') r s then None
           else Some ErrInvalidSignature)"
    using p k
    by (simp add: EcdsaSign_Verify_width [OF h, where pub = "ec_Public k" and priv = k]
        hs lr ls SetBytes_left_pad SetBytes_Bytes)
  with 1 show ?thesis unfolding n_def by simp
qed

text \<open>
  Claim C10 (an RSA or ECDSA verifier without public key takes the public key of its
  private key and proceeds; the missing-key error needs both keys to be absent). For
  both signers: with a private key and no public key, \<^verbatim>\<open>Verify\<close> returns what it returns
  once the public key of the private key is set, which is not the missing-key error;
  the missing-key error is returned only when both keys are absent; and with a private
  key and no public key \<^verbatim>\<open>Verify\<close> returns what the verification primitive of the
  algorithm returns for the public key of the private key, the digest of the payload
  and the signature (for ECDSA, the two numbers read from the halves of a signature of
  the right size).
\<close>

theorem C10_public_key_fallback:
  "(rs_PublicKey s = None \<and> rs_PrivateKey s = Some k \<longrightarrow>
      RsaSign_Verify c s pl sg = RsaSign_Verify c (s\<lparr>rs_PublicKey := Some (rsa_Public k)\<rparr>) pl sg
      \<and> RsaSign_Verify c s pl sg \<noteq> Some ErrMissingPublicKey)
   \<and> (RsaSign_Verify c s pl sg = Some ErrMissingPublicKey \<longrightarrow>
        rs_PublicKey s = None \<and> rs_PrivateKey s = None)
   \<and> (RsaSign_hash s = Inr h \<and> rs_PublicKey s = None \<and> rs_PrivateKey s = None \<longrightarrow>
        RsaSign_Verify c s pl sg = Some ErrMissingPublicKey)
   \<and> (ecs_PublicKey e = None \<and> ecs_PrivateKey e = Some ek \<longrightarrow>
        EcdsaSign_Verify c e pl sg =
          EcdsaSign_Verify c (e\<lparr>ecs_PublicKey := Some (ec_Public ek)\<rparr>) pl sg
        \<and> EcdsaSign_Verify c e pl sg \<noteq>
            Some (New ''cannot proceed with Verify(): no private/public key available''))
   \<and> (EcdsaSign_Verify c e pl sg =
          Some (New ''cannot proceed with Verify(): no private/public key available'') \<longrightarrow>
        ecs_PublicKey e = None \<and> ecs_PrivateKey e = None)
   \<and> (ecs_PublicKey e = None \<and> ecs_PrivateKey e = None \<longrightarrow>
        EcdsaSign_Verify c e pl sg =
          Some (New ''cannot proceed with Verify(): no private/public key available''))
   \<and> (RsaSign_hash s = Inr h \<and> rs_PublicKey s = None \<and> rs_PrivateKey s = Some k \<longrightarrow>
        RsaSign_Verify c s pl sg =
          map_option External
            ((if rs_Algorithm s = RS256 \<or> rs_Algorithm s = RS384 \<or> rs_Algorithm s = RS512
              then rsa_VerifyPKCS1v15 c else rsa_VerifyPSS c)
               (rsa_Public k) h (hash_Sum c h pl) sg))
   \<and> (EcdsaSign_hash e = Inr eh \<and> ecs_PublicKey e = None \<and> ecs_PrivateKey e = Some ek \<longrightarrow>
        EcdsaSign_Verify c e pl sg =
          (if int (length sg) \<noteq> 2 * Hash_Size eh then Some ErrInvalidEcdsaSignatureSize
           else if ecdsa_Verify c (ec_Public ek) (hash_Sum c eh pl)
                     (SetBytes (take (nat (Hash_Size eh)) sg))
                     (SetBytes (drop (nat (Hash_Size eh)) sg))
                then None else Some ErrInvalidSignature))"
proof -
  have r1: "rs_PublicKey s = None \<and> rs_PrivateKey s = Some k \<longrightarrow>
      RsaSign_Verify c s pl sg = RsaSign_Verify c (s\<lparr>rs_PublicKey := Some (rsa_Public k)\<rparr>) pl sg"
    by (simp add: RsaSign_Verify_def RsaSign_hash_def)
  have r2: "RsaSign_Verify c s pl sg = Some ErrMissingPublicKey \<longrightarrow>
        rs_PublicKey s = None \<and> rs_PrivateKey s = None"
    using RsaSign_Verify_missing by blast
  have e1: "ecs_PublicKey e = None \<and> ecs_PrivateKey e = Some ek \<longrightarrow>
        EcdsaSign_Verify c e pl sg =
          EcdsaSign_Verify c (e\<lparr>ecs_PublicKey := Some (ec_Public ek)\<rparr>) pl sg"
    by (simp add: EcdsaSign_Verify_def EcdsaSign_hash_def)
  have e3: "ecs_PublicKey e = None \<and> ecs_PrivateKey e = None \<longrightarrow>
        EcdsaSign_Verify c e pl sg =
          Some (New ''cannot proceed with Verify(): no private/public key available'')"
    by (simp add: EcdsaSign_Verify_def)
  have e2: "EcdsaSign_Verify c e pl sg =
          Some (New ''cannot proceed with Verify(): no private/public key available'') \<longrightarrow>
        ecs_PublicKey e = None \<and> ecs_PrivateKey e = None"
  proof (cases "ecs_PublicKey e")
    case (Some k)
    then have "e = e\<lparr>ecs_PublicKey := Some k\<rparr>" by simp
    then show ?thesis using EcdsaSign_Verify_with_key [where c = c and e = e and k = k and pl = pl and sg = sg] by simp
  next
    case None
    show ?thesis
    proof (cases "ecs_PrivateKey e")
      case (Some ek')
      with None e1 have "EcdsaSign_Verify c e pl sg =
          EcdsaSign_Verify c (e\<lparr>ecs_PublicKey := Some (ec_Public ek')\<rparr>) pl sg"
        by (simp add: EcdsaSign_Verify_def EcdsaSign_hash_def)
      then show ?thesis using EcdsaSign_Verify_with_key [where c = c and e = e and k = "ec_Public ek'" and pl = pl and sg = sg] by simp
    next
      case pn: None
      with None show ?thesis by simp
    qed
  qed
  show ?thesis
  proof (intro conjI impI)
    assume a: "rs_PublicKey s = None \<and> rs_PrivateKey s = Some k"
    with r1 show "RsaSign_Verify c s pl sg = RsaSign_Verify c (s\<lparr>rs_PublicKey := Some (rsa_Public k)\<rparr>) pl sg"
      by simp
    from a r2 show "RsaSign_Verify c s pl sg \<noteq> Some ErrMissingPublicKey" by auto
  next
    assume "RsaSign_Verify c s pl sg = Some ErrMissingPublicKey"
    with r2 show "rs_PublicKey s = None" "rs_PrivateKey s = None" by simp_all
  next
    assume "RsaSign_hash s = Inr h \<and> rs_PublicKey s = None \<and> rs_PrivateKey s = None"
    then show "RsaSign_Verify c s pl sg = Some ErrMissingPublicKey"
      by (simp add: RsaSign_Verify_def)
  next
    assume a: "ecs_PublicKey e = None \<and> ecs_PrivateKey e = Some ek"
    with e1 show "EcdsaSign_Verify c e pl sg =
          EcdsaSign_Verify c (e\<lparr>ecs_PublicKey := Some (ec_Public ek)\<rparr>) pl sg" by simp
    from a e2 show "EcdsaSign_Verify c e pl sg \<noteq>
            Some (New ''cannot proceed with Verify(): no private/public key available'')" by auto
  next
    assume "EcdsaSign_Verify c e pl sg =
          Some (New ''cannot proceed with Verify(): no private/public key available'')"
    with e2 show "ecs_PublicKey e = None" "ecs_PrivateKey e = None" by simp_all
  next
    assume "ecs_PublicKey e = None \<and> ecs_PrivateKey e = None"
    with e3 show "EcdsaSign_Verify c e pl sg =
          Some (New ''cannot proceed with Verify(): no private/public key available'')" by simp
  next
    assume "RsaSign_hash s = Inr h \<and> rs_PublicKey s = None \<and> rs_PrivateKey s = Some k"
    then show "RsaSign_Verify c s pl sg =
          map_option External
            ((if rs_Algorithm s = RS256 \<or> rs_Algorithm s = RS384 \<or> rs_Algorithm s = RS512
              then rsa_VerifyPKCS1v15 c else rsa_VerifyPSS c)
               (rsa_Public k) h (hash_Sum c h pl) sg)"
      by (elim conjE) (rule RsaSign_Verify_private_only)
  next
    assume a: "EcdsaSign_hash e = Inr eh \<and> ecs_PublicKey e = None \<and> ecs_PrivateKey e = Some ek"
    then have "EcdsaSign_hash e = Inr eh"
      and "ecs_PublicKey e = Some (ec_Public ek) \<or>
           ecs_PublicKey e = None \<and> ecs_PrivateKey e = Some ek \<and> ec_Public ek = ec_Public ek"
      by simp_all
    then show "EcdsaSign_Verify c e pl sg =
          (if int (length sg) \<noteq> 2 * Hash_Size eh then Some ErrInvalidEcdsaSignatureSize
           else if ecdsa_Verify c (ec_Public ek) (hash_Sum c eh pl)
                     (SetBytes (take (nat (Hash_Size eh)) sg))
                     (SetBytes (drop (nat (Hash_Size eh)) sg))
                then None else Some ErrInvalidSignature)"
      by (rule EcdsaSign_Verify_width)
  qed
qed

text \<open>
  The stand-in primitives on the payloads \<^verbatim>\<open>hello\<close> and \<^verbatim>\<open>hellp\<close>.
\<close>

lemma toy_digest_numbers:
  "SetBytes (toy_digest SHA256 ''hello'') mod 33 = 31"
  "SetBytes (toy_digest SHA256 ''hellp'') mod 33 = 32"
  "SetBytes (toy_digest SHA256 ''hello'') mod 35 = 23"
  "SetBytes (toy_digest SHA256 ''hello'') mod 11 = 9"
  "SetBytes (toy_digest SHA256 ''hellp'') mod 11 = 10"
  "Suc (SetBytes (toy_digest SHA256 ''hello'')) mod 33 = 32"
  by (simp_all add: toy_digest_def SetBytes_def)

lemma toy_rsa_sign_hello:
  "RsaSign_Sign toy_crypto rsa_signer_private_only ''hello'' = Inr (Bytes 4)"
proof -
  have "toy_rsa_sign 0 rsa_key (toy_digest SHA256 ''hello'') = Bytes 4"
    by (simp add: toy_rsa_sign_def rsa_key_def toy_digest_numbers)
  then show ?thesis
    by (simp add: RsaSign_Sign_def RsaSign_hash_def rsa_signer_private_only_def toy_crypto_def)
qed

lemma toy_rsa_sign_pss_hello:
  "RsaSign_Sign toy_crypto rsa_signer_pss ''hello'' = Inr (Bytes 32)"
proof -
  have "toy_rsa_sign 1 rsa_key (toy_digest SHA256 ''hello'') = Bytes 32"
    by (simp add: toy_rsa_sign_def rsa_key_def
        toy_digest_numbers)
  then show ?thesis
    by (simp add: RsaSign_Sign_def RsaSign_hash_def rsa_signer_pss_def toy_crypto_def
        PS256_def RS256_def RS384_def RS512_def)
qed

lemma toy_rsa_verify_pss_hello:
  "toy_rsa_verify 1 (rsa_Public rsa_key) (toy_digest SHA256 ''hello'') (Bytes 32) = None"
  "toy_rsa_verify 1 (rsa_Public rsa_key) (toy_digest SHA256 ''hello'') (Bytes 4) =
     Some ''crypto/rsa: verification error''"
  by (simp_all add: toy_rsa_verify_def rsa_key_def
      toy_digest_numbers SetBytes_Bytes)

lemma toy_rsa_verify_hello:
  "toy_rsa_verify 0 (rsa_Public rsa_key) (toy_digest SHA256 ''hello'') (Bytes 4) = None"
  "toy_rsa_verify 0 (rsa_Public rsa_key) (toy_digest SHA256 ''hellp'') (Bytes 4) =
     Some ''crypto/rsa: verification error''"
  "toy_rsa_verify 0 (rsa_Public rsa_other_key) (toy_digest SHA256 ''hello'') (Bytes 4) =
     Some ''crypto/rsa: verification error''"
  by (simp_all add: toy_rsa_verify_def rsa_key_def rsa_other_key_def toy_digest_numbers
      SetBytes_Bytes)

lemma toy_ecdsa_sign_hello:
  "toy_ecdsa_sign (ec_key elliptic_P256) (toy_digest SHA256 ''hello'') = Inr (3, 4)"
  by (simp add: toy_ecdsa_sign_def ec_key_def toy_digest_numbers Let_def)

lemma toy_ecdsa_verify_hello:
  "toy_ecdsa_verify (ec_Public (ec_key elliptic_P256)) (toy_digest SHA256 ''hello'') 3 4"
  "\<not> toy_ecdsa_verify (ec_Public (ec_key elliptic_P256)) (toy_digest SHA256 ''hellp'') 3 4"
  "\<not> toy_ecdsa_verify (ec_Public (ec_other_key elliptic_P256)) (toy_digest SHA256 ''hello'') 3 4"
  by (simp_all add: toy_ecdsa_verify_def ec_key_def ec_other_key_def toy_digest_numbers)

lemma toy_ecdsa_signature:
  "length (left_pad 32 (Bytes 3) @ left_pad 32 (Bytes 4)) = 64"
  "SetBytes (take 32 (left_pad 32 (Bytes 3) @ left_pad 32 (Bytes 4))) = 3"
  "SetBytes (drop 32 (left_pad 32 (Bytes 3) @ left_pad 32 (Bytes 4))) = 4"
proof -
  have l: "length (left_pad 32 (Bytes 3)) = 32" "length (left_pad 32 (Bytes 4)) = 32"
    by (rule length_left_pad, rule length_Bytes, simp)+
  show "length (left_pad 32 (Bytes 3) @ left_pad 32 (Bytes 4)) = 64" by (simp add: l)
  show "SetBytes (take 32 (left_pad 32 (Bytes 3) @ left_pad 32 (Bytes 4))) = 3"
    by (simp add: l SetBytes_left_pad SetBytes_Bytes)
  show "SetBytes (drop 32 (left_pad 32 (Bytes 3) @ left_pad 32 (Bytes 4))) = 4"
    by (simp add: l SetBytes_left_pad SetBytes_Bytes)
qed

lemma toy_ecdsa_sign_signer:
  "EcdsaSign_Sign toy_crypto ecdsa_signer_private_only ''hello'' =
     Inr (left_pad 32 (Bytes 3) @ left_pad 32 (Bytes 4))"
proof -
  have h: "EcdsaSign_hash ecdsa_signer_private_only = Inr SHA256"
    by (simp add: EcdsaSign_hash_def ecdsa_signer_private_only_def)
  have k: "ecs_PrivateKey ecdsa_signer_private_only = Some (ec_key elliptic_P256)"
    by (simp add: ecdsa_signer_private_only_def)
  have b: "BitSize (Curve (ec_Public (ec_key elliptic_P256))) = Hash_Size SHA256 * 8"
    by (simp add: ec_key_def elliptic_P256_def)
  have rs: "ecdsa_Sign toy_crypto (ec_key elliptic_P256) (hash_Sum toy_crypto SHA256 ''hello'')
              = Inr (3, 4)"
    by (simp add: toy_crypto_def toy_ecdsa_sign_hello)
  from EcdsaSign_Sign_padded [OF h k b rs] show ?thesis by simp
qed

theorem C10_public_key_fallback_witness:
  "RsaSign_Sign toy_crypto rsa_signer_private_only ''hello'' = Inr (Bytes 4)
   \<and> RsaSign_Verify toy_crypto rsa_signer_private_only ''hello'' (Bytes 4) = None
   \<and> RsaSign_Verify toy_crypto rsa_signer_private_only ''hellp'' (Bytes 4) =
       Some (External ''crypto/rsa: verification error'')
   \<and> RsaSign_Verify toy_crypto rsa_signer_other_key ''hello'' (Bytes 4) =
       Some (External ''crypto/rsa: verification error'')
   \<and> RsaSign_Sign toy_crypto rsa_signer_pss ''hello'' = Inr (Bytes 32)
   \<and> RsaSign_Verify toy_crypto rsa_signer_pss ''hello'' (Bytes 32) = None
   \<and> RsaSign_Verify toy_crypto rsa_signer_pss ''hello'' (Bytes 4) =
       Some (External ''crypto/rsa: verification error'')
   \<and> EcdsaSign_Sign toy_crypto ecdsa_signer_private_only ''hello'' =
       Inr (left_pad 32 (Bytes 3) @ left_pad 32 (Bytes 4))
   \<and> EcdsaSign_Verify toy_crypto ecdsa_signer_private_only ''hello''
       (left_pad 32 (Bytes 3) @ left_pad 32 (Bytes 4)) = None
   \<and> EcdsaSign_Verify toy_crypto ecdsa_signer_private_only ''hellp''
       (left_pad 32 (Bytes 3) @ left_pad 32 (Bytes 4)) = Some ErrInvalidSignature
   \<and> EcdsaSign_Verify toy_crypto ecdsa_signer_other_key ''hello''
       (left_pad 32 (Bytes 3) @ left_pad 32 (Bytes 4)) = Some ErrInvalidSignature
   \<and> EcdsaSign_Verify toy_crypto ecdsa_signer_private_only ''hello'' (replicate 63 (CHR 0x00)) =
       Some ErrInvalidEcdsaSignatureSize
   \<and> RsaSign_Verify toy_crypto
        (rsa_signer_private_only\<lparr>rs_PublicKey := Some (rsa_Public rsa_key)\<rparr>) ''hello'' (Bytes 4) = None
   \<and> RsaSign_Verify toy_crypto rsa_signer_no_key ''hello'' (Bytes 4) = Some ErrMissingPublicKey
   \<and> rs_PublicKey rsa_signer_no_key = None \<and> rs_PrivateKey rsa_signer_no_key = None
   \<and> EcdsaSign_Verify toy_crypto ecdsa_signer_no_key ''hello''
       (left_pad 32 (Bytes 3) @ left_pad 32 (Bytes 4)) =
       Some (New ''cannot proceed with Verify(): no private/public key available'')"
proof -
  define sg where "sg = left_pad 32 (Bytes 3) @ left_pad 32 (Bytes 4)"
  note sig = toy_ecdsa_signature [folded sg_def]
  have rp: "RsaSign_hash rsa_signer_private_only = Inr SHA256
      \<and> rs_PublicKey rsa_signer_private_only = None
      \<and> rs_PrivateKey rsa_signer_private_only = Some rsa_key"
    by (simp add: rsa_signer_private_only_def RsaSign_hash_def)
  have ro: "RsaSign_hash rsa_signer_other_key = Inr SHA256
      \<and> rs_PublicKey rsa_signer_other_key = None
      \<and> rs_PrivateKey rsa_signer_other_key = Some rsa_other_key"
    by (simp add: rsa_signer_other_key_def RsaSign_hash_def)
  have ra: "rs_Algorithm rsa_signer_private_only = RS256" "rs_Algorithm rsa_signer_other_key = RS256"
    by (simp_all add: rsa_signer_private_only_def rsa_signer_other_key_def)
  have rq: "RsaSign_hash rsa_signer_pss = Inr SHA256
      \<and> rs_PublicKey rsa_signer_pss = None
      \<and> rs_PrivateKey rsa_signer_pss = Some rsa_key"
    by (simp add: rsa_signer_pss_def RsaSign_hash_def)
  have rb: "\<not> (rs_Algorithm rsa_signer_pss = RS256 \<or> rs_Algorithm rsa_signer_pss = RS384
              \<or> rs_Algorithm rsa_signer_pss = RS512)"
    by (simp add: rsa_signer_pss_def PS256_def RS256_def RS384_def RS512_def)
  have ep: "EcdsaSign_hash ecdsa_signer_private_only = Inr SHA256
      \<and> ecs_PublicKey ecdsa_signer_private_only = None
      \<and> ecs_PrivateKey ecdsa_signer_private_only = Some (ec_key elliptic_P256)"
    by (simp add: ecdsa_signer_private_only_def EcdsaSign_hash_def)
  have eo: "EcdsaSign_hash ecdsa_signer_other_key = Inr SHA256
      \<and> ecs_PublicKey ecdsa_signer_other_key = None
      \<and> ecs_PrivateKey ecdsa_signer_other_key = Some (ec_other_key elliptic_P256)"
    by (simp add: ecdsa_signer_other_key_def EcdsaSign_hash_def)
  have prim: "rsa_VerifyPKCS1v15 toy_crypto = (\<lambda>pub h d sg. toy_rsa_verify 0 pub d sg)"
    "rsa_VerifyPSS toy_crypto = (\<lambda>pub h d sg. toy_rsa_verify 1 pub d sg)"
    "hash_Sum toy_crypto = toy_digest" "ecdsa_Verify toy_crypto = toy_ecdsa_verify"
    by (simp_all add: toy_crypto_def)
  note t = C10_public_key_fallback [where c = toy_crypto]
  note rsa = t [THEN conjunct2, THEN conjunct2, THEN conjunct2, THEN conjunct2, THEN conjunct2,
      THEN conjunct2, THEN conjunct1, rule_format]
  note ecd = t [THEN conjunct2, THEN conjunct2, THEN conjunct2, THEN conjunct2, THEN conjunct2,
      THEN conjunct2, THEN conjunct2, rule_format]
  have 1: "RsaSign_Verify toy_crypto rsa_signer_private_only ''hello'' (Bytes 4) = None"
    by (simp add: rsa [OF rp] ra prim toy_rsa_verify_hello)
  have 2: "RsaSign_Verify toy_crypto rsa_signer_private_only ''hellp'' (Bytes 4) =
       Some (External ''crypto/rsa: verification error'')"
    by (simp add: rsa [OF rp] ra prim toy_rsa_verify_hello)
  have 3: "RsaSign_Verify toy_crypto rsa_signer_other_key ''hello'' (Bytes 4) =
       Some (External ''crypto/rsa: verification error'')"
    by (simp add: rsa [OF ro] ra prim toy_rsa_verify_hello)
  have a3: "RsaSign_Verify toy_crypto rsa_signer_pss ''hello'' (Bytes 32) = None"
    by (simp add: rsa [OF rq] rb prim toy_rsa_verify_pss_hello del: One_nat_def)
  have b3: "RsaSign_Verify toy_crypto rsa_signer_pss ''hello'' (Bytes 4) =
       Some (External ''crypto/rsa: verification error'')"
    by (simp add: rsa [OF rq] rb prim toy_rsa_verify_pss_hello del: One_nat_def)
  have 4: "EcdsaSign_Verify toy_crypto ecdsa_signer_private_only ''hello'' sg = None"
    by (simp add: ecd [OF ep] prim sig toy_ecdsa_verify_hello)
  have 5: "EcdsaSign_Verify toy_crypto ecdsa_signer_private_only ''hellp'' sg =
       Some ErrInvalidSignature"
    by (simp add: ecd [OF ep] prim sig toy_ecdsa_verify_hello)
  have 6: "EcdsaSign_Verify toy_crypto ecdsa_signer_other_key ''hello'' sg =
       Some ErrInvalidSignature"
    by (simp add: ecd [OF eo] prim sig toy_ecdsa_verify_hello)
  have 7: "EcdsaSign_Verify toy_crypto ecdsa_signer_private_only ''hello'' (replicate 63 (CHR 0x00)) =
       Some ErrInvalidEcdsaSignatureSize"
    by (simp add: ecd [OF ep])
  have p: "rs_PublicKey rsa_signer_private_only = None \<and> rs_PrivateKey rsa_signer_private_only = Some rsa_key"
    using rp by simp
  from t [where s = rsa_signer_private_only and sg = "Bytes 4" and pl = "''hello''" and k = rsa_key,
      THEN conjunct1, rule_format, OF p] 1
  have 8: "RsaSign_Verify toy_crypto
        (rsa_signer_private_only\<lparr>rs_PublicKey := Some (rsa_Public rsa_key)\<rparr>) ''hello'' (Bytes 4) = None"
    by simp
  have n: "RsaSign_hash rsa_signer_no_key = Inr SHA256 \<and> rs_PublicKey rsa_signer_no_key = None
             \<and> rs_PrivateKey rsa_signer_no_key = None"
    "ecs_PublicKey ecdsa_signer_no_key = None \<and> ecs_PrivateKey ecdsa_signer_no_key = None"
    by (simp_all add: rsa_signer_no_key_def ecdsa_signer_no_key_def RsaSign_hash_def)
  from t [where s = rsa_signer_no_key and sg = "Bytes 4" and pl = "''hello''",
      THEN conjunct2, THEN conjunct2, THEN conjunct1, rule_format, OF n(1)]
  have 9: "RsaSign_Verify toy_crypto rsa_signer_no_key ''hello'' (Bytes 4) = Some ErrMissingPublicKey" .
  from t [where s = rsa_signer_no_key and sg = "Bytes 4" and pl = "''hello''",
      THEN conjunct2, THEN conjunct1, rule_format, OF 9]
  have 10: "rs_PublicKey rsa_signer_no_key = None \<and> rs_PrivateKey rsa_signer_no_key = None" .
  from t [where e = ecdsa_signer_no_key and sg = sg and pl = "''hello''",
      THEN conjunct2, THEN conjunct2, THEN conjunct2, THEN conjunct2, THEN conjunct2, THEN conjunct1,
      rule_format, OF n(2)]
  have 11: "EcdsaSign_Verify toy_crypto ecdsa_signer_no_key ''hello'' sg =
       Some (New ''cannot proceed with Verify(): no private/public key available'')" .
  from toy_rsa_sign_hello 1 2 3 toy_rsa_sign_pss_hello a3 b3 toy_ecdsa_sign_signer 4 5 6 7 8 9 10 11
  show ?thesis unfolding sg_def by (intro conjI) simp_all
qed

end
